theory Spec2Isabelle
  imports Complex_Main "HOL-Library.Word"
begin

unbundle bit_operations_syntax

section \<open>The data model of dwm.c\<close>

text \<open>
  The model follows the X11 build of \<^verbatim>\<open>src/dwm.c\<close> (the branches under
  \<^verbatim>\<open>#if USE_XLIB\<close>): that build is the one in which \<^verbatim>\<open>resize\<close> goes through
  \<^verbatim>\<open>applysizehints\<close> and in which \<^verbatim>\<open>resizeclient\<close>, \<^verbatim>\<open>setfullscreen\<close> and
  \<^verbatim>\<open>focus\<close> have a body. Calls into Xlib and into the bar renderer change no field of
  the structures below and are left out.

  \<^item> \<^verbatim>\<open>int\<close> is \<open>int\<close>: signed overflow is undefined in C and is not modelled.
  \<^item> \<^verbatim>\<open>unsigned int\<close> is \<open>32 word\<close>; conversions are \<open>word_of_int\<close> and \<open>sint\<close>.
  \<^item> \<^verbatim>\<open>float\<close> is \<open>real\<close>, holding the value of the float. The sum that \<^verbatim>\<open>setmfact\<close>
    assigns to a \<^verbatim>\<open>float\<close> is rounded to IEEE binary32 (\<open>to_float\<close> below). The
    arithmetic of \<^verbatim>\<open>tile\<close> and \<^verbatim>\<open>applysizehints\<close> is exact: its rounding is not
    modelled (the concrete inputs used for them below are dyadic, so the C arithmetic
    is exact on them); the conversion to an integer truncates as C does.
  \<^item> A \<^verbatim>\<open>Client *\<close> or \<^verbatim>\<open>Monitor *\<close> is an address (a \<open>nat\<close>) into a store of
    structures; \<^verbatim>\<open>NULL\<close> is \<open>None\<close>.
  \<^item> The intrusive lists (\<^verbatim>\<open>next\<close>, \<^verbatim>\<open>snext\<close>, the monitors' \<^verbatim>\<open>next\<close>) are the
    lists of the addresses met from the head; the head pointer is the whole list.
\<close>

type_synonym uint = "32 word"

text \<open>The arrange functions a \<^verbatim>\<open>Layout\<close> can point to.\<close>

datatype Arranger = Tile | Monocle

record Layout =
  lt_symbol :: string
  lt_arrange :: "Arranger option"

record Client =
  name :: string
  mina :: real
  maxa :: real
  cx :: int
  cy :: int
  cw :: int
  ch :: int
  oldx :: int
  oldy :: int
  oldw :: int
  oldh :: int
  basew :: int
  baseh :: int
  incw :: int
  inch :: int
  maxw :: int
  maxh :: int
  minw :: int
  minh :: int
  bw :: int
  oldbw :: int
  tags :: uint
  isfixed :: bool
  isfloating :: bool
  isurgent :: bool
  neverfocus :: bool
  oldstate :: bool
  isfullscreen :: bool
  mon :: nat

record Monitor =
  ltsymbol :: string
  mfact :: real
  nmaster :: int
  num :: int
  bar_y :: int
  mx :: int
  my :: int
  mw :: int
  mh :: int
  wx :: int
  wy :: int
  ww :: int
  wh :: int
  seltags :: uint
  sellt :: uint
  tagset :: "uint \<Rightarrow> uint"
  showbar :: bool
  topbar :: bool
  clients :: "nat list"
  sel :: "nat option"
  stack :: "nat list"
  lt :: "uint \<Rightarrow> Layout"

text \<open>
  The globals the modelled functions read or write: the two stores, the monitor list
  \<^verbatim>\<open>mons\<close>, \<^verbatim>\<open>selmon\<close>, the screen size \<^verbatim>\<open>sw\<close>, \<^verbatim>\<open>sh\<close> and the bar height
  \<^verbatim>\<open>bh\<close>. The arrays \<^verbatim>\<open>tagset[2]\<close> and \<^verbatim>\<open>lt[2]\<close> are functions of the index;
  the code only ever indexes them with \<^verbatim>\<open>seltags\<close> and \<^verbatim>\<open>sellt\<close>, which start at 0
  and change by \<^verbatim>\<open>^= 1\<close>.
\<close>

record WM =
  client :: "nat \<Rightarrow> Client"
  monitor :: "nat \<Rightarrow> Monitor"
  mons :: "nat list"
  selmon :: nat
  sw :: int
  sh :: int
  bh :: int

subsection \<open>config.h\<close>

record Rule =
  r_class :: "string option"
  r_instance :: "string option"
  r_title :: "string option"
  r_tags :: uint
  r_isfloating :: bool
  r_monitor :: int

definition rules :: "Rule list" where
  "rules =
    [\<lparr>r_class = Some ''Gimp'', r_instance = None, r_title = None,
      r_tags = 0, r_isfloating = True, r_monitor = - 1\<rparr>,
     \<lparr>r_class = Some ''Firefox'', r_instance = None, r_title = None,
      r_tags = push_bit 8 1, r_isfloating = False, r_monitor = - 1\<rparr>]"

definition resizehints :: bool where
  "resizehints = True"

text \<open>\<^verbatim>\<open>static const float mfact = 0.55\<close>: the float nearest to 0.55.\<close>

definition cfg_mfact :: real where
  "cfg_mfact = 9227469 / 16777216"

definition cfg_nmaster :: int where
  "cfg_nmaster = 1"

definition cfg_showbar :: bool where
  "cfg_showbar = True"

definition cfg_topbar :: bool where
  "cfg_topbar = True"

definition layouts :: "Layout list" where
  "layouts =
    [\<lparr>lt_symbol = ''[]='', lt_arrange = Some Tile\<rparr>,
     \<lparr>lt_symbol = ''><>'', lt_arrange = None\<rparr>,
     \<lparr>lt_symbol = ''[M]'', lt_arrange = Some Monocle\<rparr>]"

text \<open>\<^verbatim>\<open>TAGMASK = (1 << LENGTH(tags)) - 1\<close> with the nine tags of config.h.\<close>

definition TAGMASK :: uint where
  "TAGMASK = push_bit 9 1 - 1"

definition broken :: string where
  "broken = ''broken''"

subsection \<open>Fresh structures\<close>

text \<open>A \<^verbatim>\<open>Client\<close> as \<^verbatim>\<open>calloc\<close> returns it in \<^verbatim>\<open>manage\<close>: every field zero.\<close>

definition calloc_Client :: Client where
  "calloc_Client =
    \<lparr>name = [], mina = 0, maxa = 0, cx = 0, cy = 0, cw = 0, ch = 0,
     oldx = 0, oldy = 0, oldw = 0, oldh = 0, basew = 0, baseh = 0, incw = 0, inch = 0,
     maxw = 0, maxh = 0, minw = 0, minh = 0, bw = 0, oldbw = 0, tags = 0,
     isfixed = False, isfloating = False, isurgent = False, neverfocus = False,
     oldstate = False, isfullscreen = False, mon = 0\<rparr>"

text \<open>\<^verbatim>\<open>createmon()\<close>: a zeroed \<^verbatim>\<open>Monitor\<close> with the defaults of config.h.\<close>

definition createmon :: Monitor where
  "createmon =
    \<lparr>ltsymbol = take 16 (lt_symbol (layouts ! 0)), mfact = cfg_mfact, nmaster = cfg_nmaster,
     num = 0, bar_y = 0, mx = 0, my = 0, mw = 0, mh = 0, wx = 0, wy = 0, ww = 0, wh = 0,
     seltags = 0, sellt = 0, tagset = (\<lambda>i. 1),
     showbar = cfg_showbar, topbar = cfg_topbar,
     clients = [], sel = None, stack = [],
     lt = (\<lambda>i. if i = 0 then layouts ! 0 else layouts ! (1 mod length layouts))\<rparr>"

subsection \<open>Macros\<close>

text \<open>
  Modelled from the spec: \<^verbatim>\<open>MAX\<close> and \<^verbatim>\<open>MIN\<close>, macros of \<^verbatim>\<open>util.h\<close>, which is not
  among the source files. The spec reads them as the larger and the smaller of their
  arguments (it has
  \<^verbatim>\<open>applysizehints\<close> clamp \<open>w, h \<ge> 1\<close> where the code says \<^verbatim>\<open>MAX(1, *w)\<close>, and the
  first \<open>min(n, nmaster)\<close> clients in the master column where the code says
  \<^verbatim>\<open>MIN(n, m->nmaster)\<close>); they are \<open>max\<close> and \<open>min\<close> below, on the type of the
  C expression.
\<close>

definition WIDTH :: "Client \<Rightarrow> int" where
  "WIDTH X = cw X + 2 * bw X"

definition HEIGHT :: "Client \<Rightarrow> int" where
  "HEIGHT X = ch X + 2 * bw X"

definition ISVISIBLE :: "WM \<Rightarrow> nat \<Rightarrow> bool" where
  "ISVISIBLE s c =
    (tags (client s c) AND
       tagset (monitor s (mon (client s c))) (seltags (monitor s (mon (client s c)))) \<noteq> 0)"

section \<open>applyrules\<close>

text \<open>\<^verbatim>\<open>strstr(h, n) != NULL\<close>: the needle occurs in the haystack.\<close>

primrec is_prefix :: "string \<Rightarrow> string \<Rightarrow> bool" where
  "is_prefix [] hs = True"
| "is_prefix (n # ns) hs = (case hs of [] \<Rightarrow> False | h # hs' \<Rightarrow> n = h \<and> is_prefix ns hs')"

primrec strstr :: "string \<Rightarrow> string \<Rightarrow> bool" where
  "strstr [] n = (n = [])"
| "strstr (h # hs) n = (is_prefix n (h # hs) \<or> strstr hs n)"

text \<open>\<^verbatim>\<open>!r->field || strstr(text, r->field)\<close>\<close>

definition rule_field_matches :: "string option \<Rightarrow> string \<Rightarrow> bool" where
  "rule_field_matches pat txt = (case pat of None \<Rightarrow> True | Some p \<Rightarrow> strstr txt p)"

text \<open>\<^verbatim>\<open>for(m = mons; m && m->num != r->monitor; m = m->next);\<close>\<close>

definition mon_by_num :: "WM \<Rightarrow> int \<Rightarrow> nat option" where
  "mon_by_num s n = find (\<lambda>m. num (monitor s m) = n) (mons s)"

text \<open>One turn of the loop over \<^verbatim>\<open>rules\<close>, on the client structure.\<close>

definition applyrule :: "WM \<Rightarrow> string \<Rightarrow> string \<Rightarrow> Rule \<Rightarrow> Client \<Rightarrow> Client" where
  "applyrule s cls inst r C =
    (if rule_field_matches (r_title r) (name C)
        \<and> rule_field_matches (r_class r) cls
        \<and> rule_field_matches (r_instance r) inst
     then
       (let C1 = C\<lparr>isfloating := r_isfloating r, tags := tags C OR r_tags r\<rparr>
        in case mon_by_num s (r_monitor r) of
             None \<Rightarrow> C1
           | Some m \<Rightarrow> C1\<lparr>mon := m\<rparr>)
     else C)"

text \<open>
  \<^verbatim>\<open>applyrules(c)\<close>. The class and instance names come from the window system
  (\<^verbatim>\<open>XGetClassHint\<close>); a missing one is replaced by \<^verbatim>\<open>broken\<close>. After the loop the
  code first stores the monitor's current tagset in \<^verbatim>\<open>c->tags\<close> (line 544) and then
  masks it (line 545).
\<close>

definition applyrules :: "WM \<Rightarrow> nat \<Rightarrow> string option \<Rightarrow> string option \<Rightarrow> WM" where
  "applyrules s c res_class res_name =
    (let C0 = (client s c)\<lparr>isfloating := False, tags := 0\<rparr>;
         cls = (case res_class of Some t \<Rightarrow> t | None \<Rightarrow> broken);
         inst = (case res_name of Some t \<Rightarrow> t | None \<Rightarrow> broken);
         C1 = fold (applyrule s cls inst) rules C0;
         M = monitor s (mon C1);
         C2 = C1\<lparr>tags := tagset M (seltags M)\<rparr>;
         C3 = C2\<lparr>tags := (if tags C2 AND TAGMASK \<noteq> 0 then tags C2 AND TAGMASK
                             else tagset M (seltags M))\<rparr>
     in s\<lparr>client := (client s)(c := C3)\<rparr>)"

section \<open>Geometry: applysizehints, resize, resizeclient\<close>

text \<open>Conversion of a floating point value to \<^verbatim>\<open>int\<close>: towards zero.\<close>

definition c_trunc :: "real \<Rightarrow> int" where
  "c_trunc r = (if 0 \<le> r then \<lfloor>r\<rfloor> else \<lceil>r\<rceil>)"

text \<open>The remainder of C's \<^verbatim>\<open>%\<close> on \<^verbatim>\<open>int\<close>: it has the sign of the dividend.\<close>

definition c_rem :: "int \<Rightarrow> int \<Rightarrow> int" where
  "c_rem a b = sgn a * (\<bar>a\<bar> mod \<bar>b\<bar>)"

text \<open>
  \<^verbatim>\<open>a < (float)p / q\<close>. Division by zero is written out: the quotient is
  \<open>+\<infinity>\<close> for a positive \<open>p\<close> (the test holds), \<open>-\<infinity>\<close> or NaN otherwise (it fails).
\<close>

definition flt_lt_quot :: "real \<Rightarrow> int \<Rightarrow> int \<Rightarrow> bool" where
  "flt_lt_quot a p q = (if q = 0 then 0 < p else a < real_of_int p / real_of_int q)"

text \<open>
  Lines 581 to 609 of \<^verbatim>\<open>applysizehints\<close>: the block guarded by
  \<^verbatim>\<open>resizehints || c->isfloating || !c->mon->lt[c->mon->sellt]->arrange\<close>, on the
  width and height.
\<close>

definition sizehints_wh :: "Client \<Rightarrow> int \<Rightarrow> int \<Rightarrow> int \<times> int" where
  "sizehints_wh C w0 h0 =
    (let baseismin = (basew C = minw C \<and> baseh C = minh C);
         w1 = (if baseismin then w0 else w0 - basew C);
         h1 = (if baseismin then h0 else h0 - baseh C);
         w2 = (if 0 < mina C \<and> 0 < maxa C \<and> flt_lt_quot (maxa C) w1 h1
               then c_trunc (real_of_int h1 * maxa C + 1 / 2) else w1);
         h2 = (if 0 < mina C \<and> 0 < maxa C \<and> \<not> flt_lt_quot (maxa C) w1 h1
                  \<and> flt_lt_quot (mina C) h1 w1
               then c_trunc (real_of_int w1 * mina C + 1 / 2) else h1);
         w3 = (if baseismin then w2 - basew C else w2);
         h3 = (if baseismin then h2 - baseh C else h2);
         w4 = (if incw C \<noteq> 0 then w3 - c_rem w3 (incw C) else w3);
         h4 = (if inch C \<noteq> 0 then h3 - c_rem h3 (inch C) else h3);
         w5 = max (w4 + basew C) (minw C);
         h5 = max (h4 + baseh C) (minh C);
         w6 = (if maxw C \<noteq> 0 then min w5 (maxw C) else w5);
         h6 = (if maxh C \<noteq> 0 then min h5 (maxh C) else h5)
     in (w6, h6))"

text \<open>
  \<^verbatim>\<open>applysizehints(c, &x, &y, &w, &h, interact)\<close>: the returned flag and the four
  values left in \<^verbatim>\<open>*x, *y, *w, *h\<close>.
\<close>

definition applysizehints ::
  "WM \<Rightarrow> nat \<Rightarrow> int \<Rightarrow> int \<Rightarrow> int \<Rightarrow> int \<Rightarrow> bool \<Rightarrow> bool \<times> int \<times> int \<times> int \<times> int" where
  "applysizehints s c x0 y0 w0 h0 interact =
    (let C = client s c;
         m = monitor s (mon C);
         w1 = max 1 w0;
         h1 = max 1 h0;
         x1 = (if interact then (if x0 > sw s then sw s - WIDTH C else x0)
               else (if x0 \<ge> wx m + ww m then wx m + ww m - WIDTH C else x0));
         y1 = (if interact then (if y0 > sh s then sh s - HEIGHT C else y0)
               else (if y0 \<ge> wy m + wh m then wy m + wh m - HEIGHT C else y0));
         x2 = (if interact then (if x1 + w1 + 2 * bw C < 0 then 0 else x1)
               else (if x1 + w1 + 2 * bw C \<le> wx m then wx m else x1));
         y2 = (if interact then (if y1 + h1 + 2 * bw C < 0 then 0 else y1)
               else (if y1 + h1 + 2 * bw C \<le> wy m then wy m else y1));
         h2 = (if h1 < bh s then bh s else h1);
         w2 = (if w1 < bh s then bh s else w1);
         wh3 = (if resizehints \<or> isfloating C \<or> lt_arrange (lt m (sellt m)) = None
                then sizehints_wh C w2 h2 else (w2, h2));
         w3 = fst wh3;
         h3 = snd wh3
     in (x2 \<noteq> cx C \<or> y2 \<noteq> cy C \<or> w3 \<noteq> cw C \<or> h3 \<noteq> ch C, x2, y2, w3, h3))"

text \<open>\<^verbatim>\<open>resizeclient\<close>: the old geometry is saved, the new one stored.\<close>

definition resizeclient :: "WM \<Rightarrow> nat \<Rightarrow> int \<Rightarrow> int \<Rightarrow> int \<Rightarrow> int \<Rightarrow> WM" where
  "resizeclient s c x y w h =
    s\<lparr>client := (client s)(c := (client s c)
        \<lparr>oldx := cx (client s c), cx := x,
         oldy := cy (client s c), cy := y,
         oldw := cw (client s c), cw := w,
         oldh := ch (client s c), ch := h\<rparr>)\<rparr>"

definition resize :: "WM \<Rightarrow> nat \<Rightarrow> int \<Rightarrow> int \<Rightarrow> int \<Rightarrow> int \<Rightarrow> bool \<Rightarrow> WM" where
  "resize s c x y w h interact =
    (case applysizehints s c x y w h interact of
       (dirty, x', y', w', h') \<Rightarrow> if dirty then resizeclient s c x' y' w' h' else s)"

section \<open>Layouts\<close>

text \<open>
  \<^verbatim>\<open>nexttiled(c)\<close>: the rest of the client list from the first client that is
  neither floating nor invisible; the empty list is \<^verbatim>\<open>NULL\<close>.
\<close>

definition nexttiled :: "WM \<Rightarrow> nat list \<Rightarrow> nat list" where
  "nexttiled s cs = dropWhile (\<lambda>c. isfloating (client s c) \<or> \<not> ISVISIBLE s c) cs"

text \<open>Decimal digits of a natural number, and \<^verbatim>\<open>%d\<close>.\<close>

function dec :: "nat \<Rightarrow> string" where
  "dec n = (if n < 10 then [''0123456789'' ! n] else dec (n div 10) @ [''0123456789'' ! (n mod 10)])"
  by pat_completeness auto
termination
  by (relation "measure id") auto

declare dec.simps [simp del]

definition fmt_d :: "int \<Rightarrow> string" where
  "fmt_d i = (if i < 0 then CHR ''-'' # dec (nat (- i)) else dec (nat i))"

text \<open>
  \<^verbatim>\<open>for(c = nexttiled(m->clients); c; c = nexttiled(c->next)) resize(c, m->wx, m->wy,
  m->ww - 2 * c->bw, m->wh - 2 * c->bw, False);\<close>
\<close>

function monocle_loop :: "WM \<Rightarrow> nat \<Rightarrow> nat list \<Rightarrow> WM" where
  "monocle_loop s m cs =
    (case nexttiled s cs of
       [] \<Rightarrow> s
     | c # rest \<Rightarrow>
         monocle_loop
           (resize s c (wx (monitor s m)) (wy (monitor s m))
              (ww (monitor s m) - 2 * bw (client s c))
              (wh (monitor s m) - 2 * bw (client s c)) False)
           m rest)"
  by pat_completeness auto
termination
proof (relation "measure (\<lambda>(s, m, cs). length cs)")
  show "wf (measure (\<lambda>(s, m, cs). length cs))" by simp
next
  fix s :: WM and m :: nat and cs :: "nat list" and c :: nat and rest :: "nat list"
  assume a: "nexttiled s cs = c # rest"
  have "length (nexttiled s cs) \<le> length cs"
    unfolding nexttiled_def by (rule length_dropWhile_le)
  with a show "((resize s c (wx (monitor s m)) (wy (monitor s m))
              (ww (monitor s m) - 2 * bw (client s c))
              (wh (monitor s m) - 2 * bw (client s c)) False, m, rest), s, m, cs)
          \<in> measure (\<lambda>(s, m, cs). length cs)"
    by simp
qed

declare monocle_loop.simps [simp del]

text \<open>
  \<^verbatim>\<open>monocle(m)\<close>. The counter \<^verbatim>\<open>n\<close> is an \<^verbatim>\<open>unsigned int\<close> printed with
  \<^verbatim>\<open>%d\<close>; \<^verbatim>\<open>snprintf\<close> keeps at most 15 characters of the text.
\<close>

definition monocle :: "WM \<Rightarrow> nat \<Rightarrow> WM" where
  "monocle s m =
    (let n = (word_of_nat (length (filter (ISVISIBLE s) (clients (monitor s m)))) :: uint);
         s1 = (if 0 < n
               then s\<lparr>monitor := (monitor s)(m := (monitor s m)
                       \<lparr>ltsymbol := take 15 (''['' @ fmt_d (sint n) @ '']'')\<rparr>)\<rparr>
               else s)
     in monocle_loop s1 m (clients (monitor s1 m)))"

text \<open>
  \<^verbatim>\<open>for(n = 0, c = nexttiled(m->clients); c; c = nexttiled(c->next), n++);\<close>
\<close>

function tile_count :: "WM \<Rightarrow> nat list \<Rightarrow> uint \<Rightarrow> uint" where
  "tile_count s cs n =
    (case nexttiled s cs of [] \<Rightarrow> n | c # rest \<Rightarrow> tile_count s rest (n + 1))"
  by pat_completeness auto
termination
proof (relation "measure (\<lambda>(s, cs, n). length cs)")
  show "wf (measure (\<lambda>(s, cs, n). length cs))" by simp
next
  fix s :: WM and cs :: "nat list" and n :: uint and c :: nat and rest :: "nat list"
  assume a: "nexttiled s cs = c # rest"
  have "length (nexttiled s cs) \<le> length cs"
    unfolding nexttiled_def by (rule length_dropWhile_le)
  with a show "((s, rest, n + 1), s, cs, n) \<in> measure (\<lambda>(s, cs, n). length cs)"
    by simp
qed

declare tile_count.simps [simp del]

text \<open>
  The second loop of \<^verbatim>\<open>tile\<close>. The locals \<^verbatim>\<open>i, n, h, mw, my, ty\<close> are
  \<^verbatim>\<open>unsigned int\<close> (here \<open>i n h mwu myu tyu\<close>), so the arithmetic that mixes them with
  the monitor's \<^verbatim>\<open>int\<close> fields is unsigned, and the results are converted back to
  \<^verbatim>\<open>int\<close> when passed to \<^verbatim>\<open>resize\<close>. The divisors are not zero in the code
  (\<^verbatim>\<open>i < MIN(n, nmaster)\<close> in the first branch, \<^verbatim>\<open>i < n\<close> in the second).
\<close>

function tile_loop ::
  "WM \<Rightarrow> nat \<Rightarrow> uint \<Rightarrow> uint \<Rightarrow> uint \<Rightarrow> uint \<Rightarrow> uint \<Rightarrow> nat list \<Rightarrow> WM" where
  "tile_loop s m n mwu i myu tyu cs =
    (case nexttiled s cs of
       [] \<Rightarrow> s
     | c # rest \<Rightarrow>
         (if i < word_of_int (nmaster (monitor s m)) then
            (let h = (word_of_int (wh (monitor s m)) - myu)
                       div (min n (word_of_int (nmaster (monitor s m))) - i);
                 s' = resize s c (wx (monitor s m))
                        (sint (word_of_int (wy (monitor s m)) + myu))
                        (sint (mwu - word_of_int (2 * bw (client s c))))
                        (sint (h - word_of_int (2 * bw (client s c)))) False
             in tile_loop s' m n mwu (i + 1) (myu + word_of_int (HEIGHT (client s' c))) tyu rest)
          else
            (let h = (word_of_int (wh (monitor s m)) - tyu) div (n - i);
                 s' = resize s c (sint (word_of_int (wx (monitor s m)) + mwu))
                        (sint (word_of_int (wy (monitor s m)) + tyu))
                        (sint (word_of_int (ww (monitor s m)) - mwu
                                 - word_of_int (2 * bw (client s c))))
                        (sint (h - word_of_int (2 * bw (client s c)))) False
             in tile_loop s' m n mwu (i + 1) myu (tyu + word_of_int (HEIGHT (client s' c))) rest)))"
  by pat_completeness auto
termination
proof (relation "measure (\<lambda>(s, m, n, mwu, i, myu, tyu, cs). length cs)", goal_cases)
  case 1
  show ?case by simp
next
  case (2 s m n mwu i myu tyu cs c rest h s')
  have "length (nexttiled s cs) \<le> length cs"
    unfolding nexttiled_def by (rule length_dropWhile_le)
  with 2(1) show ?case by simp
next
  case (3 s m n mwu i myu tyu cs c rest h s')
  have "length (nexttiled s cs) \<le> length cs"
    unfolding nexttiled_def by (rule length_dropWhile_le)
  with 3(1) show ?case by simp
qed

declare tile_loop.simps [simp del]

text \<open>
  \<^verbatim>\<open>tile(m)\<close>. \<^verbatim>\<open>m->ww * m->mfact\<close> is a floating point product, truncated when
  stored in the unsigned \<^verbatim>\<open>mw\<close>.
\<close>

definition tile :: "WM \<Rightarrow> nat \<Rightarrow> WM" where
  "tile s m =
    (let n = tile_count s (clients (monitor s m)) 0
     in if n = 0 then s
        else
          (let mwu = (if n > word_of_int (nmaster (monitor s m))
                      then (if nmaster (monitor s m) \<noteq> 0
                            then word_of_int (c_trunc (real_of_int (ww (monitor s m)) * mfact (monitor s m)))
                            else 0)
                      else word_of_int (ww (monitor s m)))
           in tile_loop s m n mwu 0 0 0 (clients (monitor s m))))"

section \<open>Arranging a monitor\<close>

text \<open>
  \<^verbatim>\<open>showhide(c)\<close> walks the focus stack. Moving a window on the screen changes no
  field; a visible client that is floating (or whose monitor has the floating layout)
  and not fullscreen is resized to its own geometry.
\<close>

fun showhide :: "WM \<Rightarrow> nat list \<Rightarrow> WM" where
  "showhide s [] = s"
| "showhide s (c # snext) =
    (if ISVISIBLE s c then
       showhide
         (if (lt_arrange (lt (monitor s (mon (client s c)))
                 (sellt (monitor s (mon (client s c))))) = None
               \<or> isfloating (client s c))
             \<and> \<not> isfullscreen (client s c)
          then resize s c (cx (client s c)) (cy (client s c))
                 (cw (client s c)) (ch (client s c)) False
          else s)
         snext
     else showhide s snext)"

text \<open>
  \<^verbatim>\<open>arrangemon(m)\<close>: \<^verbatim>\<open>strncpy\<close> copies at most 16 characters of the layout's
  symbol, then the layout's arrange function runs, if it has one.
\<close>

definition arrangemon :: "WM \<Rightarrow> nat \<Rightarrow> WM" where
  "arrangemon s m =
    (let M = monitor s m;
         s1 = s\<lparr>monitor := (monitor s)(m := M\<lparr>ltsymbol := take 16 (lt_symbol (lt M (sellt M)))\<rparr>)\<rparr>
     in case lt_arrange (lt M (sellt M)) of
          None \<Rightarrow> s1
        | Some Tile \<Rightarrow> tile s1 m
        | Some Monocle \<Rightarrow> monocle s1 m)"

text \<open>
  \<^verbatim>\<open>restack(m)\<close> redraws the bar and reorders the windows on the screen: no field
  of the model changes.
\<close>

definition restack :: "WM \<Rightarrow> nat \<Rightarrow> WM" where
  "restack s m = s"

text \<open>\<^verbatim>\<open>arrange(m)\<close>; \<open>None\<close> is the call \<^verbatim>\<open>arrange(NULL)\<close> for all monitors.\<close>

definition arrange :: "WM \<Rightarrow> nat option \<Rightarrow> WM" where
  "arrange s mo =
    (case mo of
       Some m \<Rightarrow> restack (arrangemon (showhide s (stack (monitor s m))) m) m
     | None \<Rightarrow>
         fold (\<lambda>m t. arrangemon t m) (mons s)
           (fold (\<lambda>m t. showhide t (stack (monitor t m))) (mons s) s))"

section \<open>The focus stack\<close>

definition attachstack :: "WM \<Rightarrow> nat \<Rightarrow> WM" where
  "attachstack s c =
    s\<lparr>monitor := (monitor s)(mon (client s c) :=
        (monitor s (mon (client s c)))\<lparr>stack := c # stack (monitor s (mon (client s c)))\<rparr>)\<rparr>"

text \<open>
  \<^verbatim>\<open>detachstack(c)\<close> unlinks \<open>c\<close> from the stack of its monitor; if \<open>c\<close> was the
  selected client, the first visible client of what remains becomes selected. (The
  callers detach clients that are linked in the stack. For a client that is not, the C
  loop ends at the list's last \<^verbatim>\<open>snext\<close> and stores \<^verbatim>\<open>c->snext\<close> there; the list
  model covers that case only for \<^verbatim>\<open>c->snext == NULL\<close>.)
\<close>

definition detachstack :: "WM \<Rightarrow> nat \<Rightarrow> WM" where
  "detachstack s c =
    (let m = mon (client s c);
         s1 = s\<lparr>monitor := (monitor s)(m := (monitor s m)\<lparr>stack := remove1 c (stack (monitor s m))\<rparr>)\<rparr>
     in if sel (monitor s1 m) = Some c
        then s1\<lparr>monitor := (monitor s1)(m := (monitor s1 m)
                 \<lparr>sel := find (ISVISIBLE s1) (stack (monitor s1 m))\<rparr>)\<rparr>
        else s1)"

definition clearurgent :: "WM \<Rightarrow> nat \<Rightarrow> WM" where
  "clearurgent s c = s\<lparr>client := (client s)(c := (client s c)\<lparr>isurgent := False\<rparr>)\<rparr>"

text \<open>
  \<^verbatim>\<open>focus(c)\<close>: without a visible \<open>c\<close>, the first visible client of the selected
  monitor's stack is taken. \<^verbatim>\<open>unfocus\<close>, \<^verbatim>\<open>grabbuttons\<close> and \<^verbatim>\<open>setfocus\<close> only
  talk to the X server.
\<close>

definition focus :: "WM \<Rightarrow> nat option \<Rightarrow> WM" where
  "focus s c0 =
    (let top = find (ISVISIBLE s) (stack (monitor s (selmon s)));
         c = (case c0 of None \<Rightarrow> top | Some c' \<Rightarrow> if ISVISIBLE s c' then Some c' else top);
         s4 = (case c of
                 None \<Rightarrow> s
               | Some c' \<Rightarrow>
                   (let s1 = s\<lparr>selmon := mon (client s c')\<rparr>;
                        s2 = (if isurgent (client s1 c') then clearurgent s1 c' else s1);
                        s3 = detachstack s2 c'
                    in attachstack s3 c'))
     in s4\<lparr>monitor := (monitor s4)(selmon s4 := (monitor s4 (selmon s4))\<lparr>sel := c\<rparr>)\<rparr>)"

section \<open>Views and tags\<close>

definition view :: "WM \<Rightarrow> uint \<Rightarrow> WM" where
  "view s ui =
    (let m = selmon s; M = monitor s m
     in if ui AND TAGMASK = tagset M (seltags M) then s
        else
          (let M1 = M\<lparr>seltags := seltags M XOR 1\<rparr>;
               M2 = (if ui AND TAGMASK \<noteq> 0
                     then M1\<lparr>tagset := (tagset M1)(seltags M1 := ui AND TAGMASK)\<rparr>
                     else M1);
               s1 = s\<lparr>monitor := (monitor s)(m := M2)\<rparr>;
               s2 = focus s1 None
           in arrange s2 (Some (selmon s2))))"

definition toggletag :: "WM \<Rightarrow> uint \<Rightarrow> WM" where
  "toggletag s ui =
    (case sel (monitor s (selmon s)) of
       None \<Rightarrow> s
     | Some c \<Rightarrow>
         (let newtags = tags (client s c) XOR (ui AND TAGMASK)
          in if newtags \<noteq> 0
             then (let s1 = s\<lparr>client := (client s)(c := (client s c)\<lparr>tags := newtags\<rparr>)\<rparr>;
                       s2 = focus s1 None
                   in arrange s2 (Some (selmon s2)))
             else s))"

section \<open>Fullscreen\<close>

definition setfullscreen :: "WM \<Rightarrow> nat \<Rightarrow> bool \<Rightarrow> WM" where
  "setfullscreen s c fullscreen =
    (if fullscreen then
       (let C = client s c;
            s1 = s\<lparr>client := (client s)(c := C
                    \<lparr>isfullscreen := True, oldstate := isfloating C, oldbw := bw C,
                     bw := 0, isfloating := True\<rparr>)\<rparr>;
            M = monitor s1 (mon (client s1 c))
        in resizeclient s1 c (mx M) (my M) (mw M) (mh M))
     else
       (let C = client s c;
            s1 = s\<lparr>client := (client s)(c := C
                    \<lparr>isfullscreen := False, isfloating := oldstate C, bw := oldbw C,
                     cx := oldx C, cy := oldy C, cw := oldw C, ch := oldh C\<rparr>)\<rparr>;
            C1 = client s1 c;
            s2 = resizeclient s1 c (cx C1) (cy C1) (cw C1) (ch C1)
        in arrange s2 (Some (mon (client s2 c)))))"

section \<open>The master area factor\<close>

text \<open>
  Rounding of a real to IEEE binary32 (24 bits of significand, exponents from -126
  to 127, round to nearest, ties to even), as C does when a value is stored into a
  \<^verbatim>\<open>float\<close>. \<open>float_exp r\<close> is the exponent of the binade of \<open>r\<close>, kept within the
  exponent range, so that the values below \<open>2\<^sup>-\<^sup>1\<^sup>2\<^sup>6\<close> are rounded on the subnormal
  grid. A value beyond the largest float is rounded on the grid of the last binade,
  where C gives an infinity: both are above every bound they are compared with here.
\<close>

definition pow2 :: "int \<Rightarrow> real" where
  "pow2 e = (if 0 \<le> e then 2 ^ nat e else 1 / 2 ^ nat (- e))"

fun norm_exp :: "nat \<Rightarrow> real \<Rightarrow> int \<Rightarrow> int" where
  "norm_exp fuel a e =
     (if fuel = 0 then e
      else if 2 \<le> a \<and> e < 127 then norm_exp (fuel - 1) (a / 2) (e + 1)
      else if a < 1 \<and> - 126 < e then norm_exp (fuel - 1) (a * 2) (e - 1)
      else e)"

declare norm_exp.simps [simp del]

definition float_exp :: "real \<Rightarrow> int" where
  "float_exp r = norm_exp 300 \<bar>r\<bar> 0"

definition round_even :: "real \<Rightarrow> int" where
  "round_even q =
     (if q - real_of_int \<lfloor>q\<rfloor> < 1 / 2 then \<lfloor>q\<rfloor>
      else if 1 / 2 < q - real_of_int \<lfloor>q\<rfloor> then \<lfloor>q\<rfloor> + 1
      else if even \<lfloor>q\<rfloor> then \<lfloor>q\<rfloor> else \<lfloor>q\<rfloor> + 1)"

definition to_float :: "real \<Rightarrow> real" where
  "to_float r =
     real_of_int (round_even (r / pow2 (float_exp r - 23))) * pow2 (float_exp r - 23)"

text \<open>The \<^verbatim>\<open>double\<close> constants \<^verbatim>\<open>0.1\<close> and \<^verbatim>\<open>0.9\<close>: the doubles nearest to 1/10 and 9/10.\<close>

definition double_0_1 :: real where
  "double_0_1 = 3602879701896397 / 36028797018963968"

definition double_0_9 :: real where
  "double_0_9 = 8106479329266893 / 9007199254740992"

text \<open>
  \<^verbatim>\<open>setmfact(arg)\<close> with \<^verbatim>\<open>arg->f\<close>, a finite float; \<open>None\<close> is a null \<^verbatim>\<open>arg\<close>. The
  local \<^verbatim>\<open>f\<close> is a \<^verbatim>\<open>float\<close>: \<^verbatim>\<open>arg->f + selmon->mfact\<close> is a float addition,
  evaluated in single precision, and \<^verbatim>\<open>arg->f - 1.0\<close>, a double (the subtraction is
  exact in double for a float below \<open>2\<^sup>5\<^sup>3\<close>), is rounded when it is assigned to
  \<^verbatim>\<open>f\<close>. The guard compares \<^verbatim>\<open>f\<close> with the double constants.
\<close>

definition setmfact :: "WM \<Rightarrow> real option \<Rightarrow> WM" where
  "setmfact s arg =
    (case arg of
       None \<Rightarrow> s
     | Some af \<Rightarrow>
         (let M = monitor s (selmon s)
          in if lt_arrange (lt M (sellt M)) = None then s
             else
               (let f = (if af < 1 then to_float (af + mfact M) else to_float (af - 1))
                in if f < double_0_1 \<or> f > double_0_9 then s
                   else arrange (s\<lparr>monitor := (monitor s)(selmon s := M\<lparr>mfact := f\<rparr>)\<rparr>)
                          (Some (selmon s)))))"

section \<open>Auxiliary notions for the proofs\<close>

text \<open>The part of a \<^verbatim>\<open>Client\<close> that \<^verbatim>\<open>resizeclient\<close> does not write: the geometry and the saved geometry are blanked.\<close>

definition nongeom :: "Client \<Rightarrow> Client" where
  "nongeom C = C\<lparr>cx := 0, cy := 0, cw := 0, ch := 0, oldx := 0, oldy := 0, oldw := 0, oldh := 0\<rparr>"

text \<open>The part of a \<^verbatim>\<open>Monitor\<close> outside \<^verbatim>\<open>ltsymbol\<close>.\<close>

definition nosym :: "Monitor \<Rightarrow> Monitor" where
  "nosym M = M\<lparr>ltsymbol := []\<rparr>"

text \<open>Two states that differ at most in the geometry of clients and in layout symbols.\<close>

definition geom_frame :: "WM \<Rightarrow> WM \<Rightarrow> bool" where
  "geom_frame s t \<longleftrightarrow>
     (\<forall>c. nongeom (client t c) = nongeom (client s c)) \<and>
     (\<forall>m. nosym (monitor t m) = nosym (monitor s m)) \<and>
     mons t = mons s \<and> selmon t = selmon s \<and> sw t = sw s \<and> sh t = sh s \<and> bh t = bh s"

text \<open>Two states with the same tagsets, tag selectors and master factors on every monitor, and the same tags and monitor on every client.\<close>

definition view_frame :: "WM \<Rightarrow> WM \<Rightarrow> bool" where
  "view_frame s t \<longleftrightarrow>
     (\<forall>m. seltags (monitor t m) = seltags (monitor s m) \<and> tagset (monitor t m) = tagset (monitor s m)
          \<and> mfact (monitor t m) = mfact (monitor s m)) \<and>
     (\<forall>c. tags (client t c) = tags (client s c) \<and> mon (client t c) = mon (client s c))"

text \<open>The state of \<^verbatim>\<open>view\<close> after its two stores (lines 3011 to 3013), before \<^verbatim>\<open>focus(NULL)\<close> and \<^verbatim>\<open>arrange(selmon)\<close>.\<close>

definition view_store :: "WM \<Rightarrow> uint \<Rightarrow> WM" where
  "view_store s ui =
     s\<lparr>monitor := (monitor s)(selmon s :=
        (if ui AND TAGMASK \<noteq> 0
         then (monitor s (selmon s))\<lparr>seltags := seltags (monitor s (selmon s)) XOR 1,
                tagset := (tagset (monitor s (selmon s)))(seltags (monitor s (selmon s)) XOR 1 := ui AND TAGMASK)\<rparr>
         else (monitor s (selmon s))\<lparr>seltags := seltags (monitor s (selmon s)) XOR 1\<rparr>))\<rparr>"

text \<open>The part of a \<^verbatim>\<open>Client\<close> outside the fields that save a former value (\<^verbatim>\<open>oldx\<close>, \<^verbatim>\<open>oldy\<close>, \<^verbatim>\<open>oldw\<close>, \<^verbatim>\<open>oldh\<close>, \<^verbatim>\<open>oldbw\<close>, \<^verbatim>\<open>oldstate\<close>).\<close>

definition noold :: "Client \<Rightarrow> Client" where
  "noold C = C\<lparr>oldx := 0, oldy := 0, oldw := 0, oldh := 0, oldbw := 0, oldstate := False\<rparr>"

text \<open>Two states that differ at most in the saved fields of clients.\<close>

definition old_eq :: "WM \<Rightarrow> WM \<Rightarrow> bool" where
  "old_eq s t \<longleftrightarrow>
     (\<forall>c. noold (client t c) = noold (client s c)) \<and> monitor t = monitor s \<and>
     mons t = mons s \<and> selmon t = selmon s \<and> sw t = sw s \<and> sh t = sh s \<and> bh t = bh s"

section \<open>Concrete states\<close>

text \<open>
  A 1000 by 700 screen without a bar (\<^verbatim>\<open>bh = 0\<close>), one monitor as \<^verbatim>\<open>createmon\<close>
  and \<^verbatim>\<open>updategeom\<close> leave it, with \<^verbatim>\<open>mfact = 0.5\<close>; every client structure is a
  fresh one with the border of config.h (\<^verbatim>\<open>borderpx = 1\<close>) on tag 1 of monitor 0.
\<close>

definition scr :: WM where
  "scr =
    \<lparr>client = (\<lambda>a. calloc_Client\<lparr>bw := 1, tags := 1\<rparr>),
     monitor = (\<lambda>a. createmon\<lparr>mfact := 1 / 2, mw := 1000, mh := 700, ww := 1000, wh := 700\<rparr>),
     mons = [0], selmon = 0, sw = 1000, sh = 700, bh = 0\<rparr>"

text \<open>Two clients 0 and 1, in this order in the client list and in the stack; 0 is selected.\<close>

definition st_two :: WM where
  "st_two = scr\<lparr>monitor := (monitor scr)(0 := (monitor scr 0)
      \<lparr>clients := [0, 1], stack := [0, 1], sel := Some 0\<rparr>)\<rparr>"

text \<open>
  The client structure as \<^verbatim>\<open>manage\<close> hands it to \<^verbatim>\<open>applyrules\<close>: fresh, with its
  title read and \<^verbatim>\<open>c->mon = selmon\<close>.
\<close>

definition st_fox :: WM where
  "st_fox = scr\<lparr>client := (client scr)(0 := calloc_Client\<lparr>name := ''Mozilla Firefox'', mon := selmon scr\<rparr>)\<rparr>"

text \<open>
  The state of \<^verbatim>\<open>toggletag\<close> after its store to \<^verbatim>\<open>selmon->sel->tags\<close> (line 2578),
  before \<^verbatim>\<open>focus(NULL)\<close> and \<^verbatim>\<open>arrange(selmon)\<close>.
\<close>

definition toggletag_store :: "WM \<Rightarrow> nat \<Rightarrow> uint \<Rightarrow> WM" where
  "toggletag_store s c ui =
     s\<lparr>client := (client s)(c := (client s c)\<lparr>tags := tags (client s c) XOR (ui AND TAGMASK)\<rparr>)\<rparr>"

text \<open>
  Size hints that leave a size alone but for the minimum: no resize increment, no
  maximum size and no aspect limits (\<^verbatim>\<open>mina\<close> or \<^verbatim>\<open>maxa\<close> not positive switches the
  aspect block off).
\<close>

definition plain_hints :: "Client \<Rightarrow> bool" where
  "plain_hints C \<longleftrightarrow> incw C = 0 \<and> inch C = 0 \<and> maxw C = 0 \<and> maxh C = 0
       \<and> (mina C \<le> 0 \<or> maxa C \<le> 0)"

text \<open>
  The clamp of one coordinate in \<^verbatim>\<open>applysizehints\<close> (lines 556 to 575), the same for
  \<open>x\<close> and for \<open>y\<close>: \<open>scr_len\<close> is \<^verbatim>\<open>sw\<close> or \<^verbatim>\<open>sh\<close>, \<open>lo\<close> and \<open>len\<close> the work
  area's origin and extent, \<open>outer\<close> the client's \<^verbatim>\<open>WIDTH\<close> or \<^verbatim>\<open>HEIGHT\<close>, \<open>bw2\<close>
  twice its border and \<open>w1\<close> the requested size.
\<close>

definition clamp_coord :: "bool \<Rightarrow> int \<Rightarrow> int \<Rightarrow> int \<Rightarrow> int \<Rightarrow> int \<Rightarrow> int \<Rightarrow> int \<Rightarrow> int" where
  "clamp_coord interact scr_len lo len outer bw2 x0 w1 =
     (let x1 = (if interact then (if x0 > scr_len then scr_len - outer else x0)
                else (if x0 \<ge> lo + len then lo + len - outer else x0))
      in if interact then (if x1 + w1 + bw2 < 0 then 0 else x1)
         else (if x1 + w1 + bw2 \<le> lo then lo else x1))"

text \<open>A client with a height increment of 7 and a maximum height of 20.\<close>

definition st_inc :: WM where
  "st_inc = scr\<lparr>client := (client scr)(0 := (client scr 0)\<lparr>inch := 7, maxh := 20\<rparr>)\<rparr>"

text \<open>The geometry \<^verbatim>\<open>(x, y, w, h)\<close> of a client.\<close>

definition geom :: "Client \<Rightarrow> int \<times> int \<times> int \<times> int" where
  "geom C = (cx C, cy C, cw C, ch C)"

text \<open>The clients \<^verbatim>\<open>nexttiled\<close> stops at: not floating and visible.\<close>

definition tiled :: "WM \<Rightarrow> nat \<Rightarrow> bool" where
  "tiled s c \<longleftrightarrow> \<not> isfloating (client s c) \<and> ISVISIBLE s c"

text \<open>
  The state of \<^verbatim>\<open>monocle\<close> after the count and the \<^verbatim>\<open>snprintf\<close> (lines 1562 to
  1566), before the loop of resizes.
\<close>

definition monocle_symbol :: "WM \<Rightarrow> nat \<Rightarrow> WM" where
  "monocle_symbol s m =
     (if 0 < (word_of_nat (length (filter (ISVISIBLE s) (clients (monitor s m)))) :: uint)
      then s\<lparr>monitor := (monitor s)(m := (monitor s m)
              \<lparr>ltsymbol := take 15 (''['' @ fmt_d (sint (word_of_nat (length (filter (ISVISIBLE s) (clients (monitor s m)))) :: uint)) @ '']'')\<rparr>)\<rparr>
      else s)"

text \<open>
  A client without size hints: the values \<^verbatim>\<open>updatesizehints\<close> stores for a window
  that sets none.
\<close>

definition no_sizehints :: "Client \<Rightarrow> bool" where
  "no_sizehints C \<longleftrightarrow> basew C = 0 \<and> baseh C = 0 \<and> incw C = 0 \<and> inch C = 0
      \<and> maxw C = 0 \<and> maxh C = 0 \<and> minw C = 0 \<and> minh C = 0 \<and> mina C = 0 \<and> maxa C = 0"

text \<open>The \<^verbatim>\<open>resize\<close> call of one turn of the second loop of \<^verbatim>\<open>tile\<close>.\<close>

definition tile_resize :: "WM \<Rightarrow> nat \<Rightarrow> uint \<Rightarrow> uint \<Rightarrow> uint \<Rightarrow> uint \<Rightarrow> uint \<Rightarrow> nat \<Rightarrow> WM" where
  "tile_resize s m n mwu i myu tyu c =
     (if i < word_of_int (nmaster (monitor s m)) then
        resize s c (wx (monitor s m))
          (sint (word_of_int (wy (monitor s m)) + myu))
          (sint (mwu - word_of_int (2 * bw (client s c))))
          (sint ((word_of_int (wh (monitor s m)) - myu)
                   div (min n (word_of_int (nmaster (monitor s m))) - i)
                 - word_of_int (2 * bw (client s c)))) False
      else
        resize s c (sint (word_of_int (wx (monitor s m)) + mwu))
          (sint (word_of_int (wy (monitor s m)) + tyu))
          (sint (word_of_int (ww (monitor s m)) - mwu - word_of_int (2 * bw (client s c))))
          (sint ((word_of_int (wh (monitor s m)) - tyu) div (n - i)
                 - word_of_int (2 * bw (client s c)))) False)"

text \<open>
  A client that \<^verbatim>\<open>arrange\<close> of its monitor leaves alone: it is invisible, or it is
  managed as floating (it floats, or its monitor has the floating layout) and is
  fullscreen or already has the geometry \<^verbatim>\<open>applysizehints\<close> returns for its own.
\<close>

definition settled :: "WM \<Rightarrow> nat \<Rightarrow> bool" where
  "settled s c \<longleftrightarrow>
     (if ISVISIBLE s c
      then (lt_arrange (lt (monitor s (mon (client s c))) (sellt (monitor s (mon (client s c))))) = None
              \<or> isfloating (client s c))
           \<and> (isfullscreen (client s c) \<or>
                snd (applysizehints s c (cx (client s c)) (cy (client s c))
                       (cw (client s c)) (ch (client s c)) False) = geom (client s c))
      else True)"

text \<open>
  The state after \<^verbatim>\<open>setfullscreen(c, True)\<close> and the stores of
  \<^verbatim>\<open>setfullscreen(c, False)\<close> (lines 2244 to 2251), before its closing
  \<^verbatim>\<open>arrange(c->mon)\<close>: the client is as before but for the saved fields.
\<close>

definition unfullscreen_store :: "WM \<Rightarrow> nat \<Rightarrow> WM" where
  "unfullscreen_store s c =
     s\<lparr>client := (client s)(c := (client s c)
        \<lparr>oldstate := isfloating (client s c), oldbw := bw (client s c),
         oldx := cx (client s c), oldy := cy (client s c),
         oldw := cw (client s c), oldh := ch (client s c), isfullscreen := False\<rparr>)\<rparr>"

text \<open>
  Three clients under the monocle layout, as \<^verbatim>\<open>setlayout\<close> selects it from a fresh
  monitor (\<^verbatim>\<open>sellt\<close> flipped to 1, \<^verbatim>\<open>lt[1] = &layouts[2]\<close>); and the same with a
  maximum size of 100 by 100 in the hints of client 1.
\<close>

definition st_three :: WM where
  "st_three = scr\<lparr>monitor := (monitor scr)(0 := (monitor scr 0)
      \<lparr>sellt := 1, lt := (lt (monitor scr 0))(1 := layouts ! 2),
       clients := [0, 1, 2], stack := [0, 1, 2], sel := Some 0\<rparr>)\<rparr>"

definition st_three_max :: WM where
  "st_three_max = st_three\<lparr>client := (client st_three)(1 := (client st_three 1)\<lparr>maxw := 100, maxh := 100\<rparr>)\<rparr>"

text \<open>
  One client at \<open>(100, 100, 400, 300)\<close> with border 1 on the tiling monitor: tiled,
  and floating.
\<close>

definition st_tiled_at :: WM where
  "st_tiled_at = scr\<lparr>client := (client scr)(0 := (client scr 0)\<lparr>cx := 100, cy := 100, cw := 400, ch := 300\<rparr>),
     monitor := (monitor scr)(0 := (monitor scr 0)\<lparr>clients := [0], stack := [0], sel := Some 0\<rparr>)\<rparr>"

definition st_float_at :: WM where
  "st_float_at = st_tiled_at\<lparr>client := (client st_tiled_at)(0 := (client st_tiled_at 0)\<lparr>isfloating := True\<rparr>)\<rparr>"

text \<open>
  One client with border 1 alone on the tiling monitor, not floating, at
  \<open>(0, 0, 998, 698)\<close>: the place \<^verbatim>\<open>tile\<close> gives it.
\<close>

definition st_tiled_on :: WM where
  "st_tiled_on = scr\<lparr>client := (client scr)(0 := (client scr 0)\<lparr>cx := 0, cy := 0, cw := 998, ch := 698\<rparr>),
     monitor := (monitor scr)(0 := (monitor scr 0)\<lparr>clients := [0], stack := [0], sel := Some 0\<rparr>)\<rparr>"

section \<open>Frame lemmas\<close>

lemma geom_frame_refl: "geom_frame s s" by (simp add: geom_frame_def)

lemma geom_frame_trans: "geom_frame s t \<Longrightarrow> geom_frame t u \<Longrightarrow> geom_frame s u"
  by (simp add: geom_frame_def)

lemma nongeom_fields:
  "tags C = tags (nongeom C)" "mon C = mon (nongeom C)" "bw C = bw (nongeom C)"
  "isfloating C = isfloating (nongeom C)" "isfullscreen C = isfullscreen (nongeom C)"
  "oldbw C = oldbw (nongeom C)" "oldstate C = oldstate (nongeom C)"
  by (simp_all add: nongeom_def)

lemma nosym_fields:
  "seltags M = seltags (nosym M)" "tagset M = tagset (nosym M)" "sellt M = sellt (nosym M)"
  "lt M = lt (nosym M)" "stack M = stack (nosym M)" "clients M = clients (nosym M)" "sel M = sel (nosym M)"
  "mfact M = mfact (nosym M)" "nmaster M = nmaster (nosym M)"
  "wx M = wx (nosym M)" "wy M = wy (nosym M)" "ww M = ww (nosym M)" "wh M = wh (nosym M)"
  by (simp_all add: nosym_def)

lemma geom_frame_client:
  assumes "geom_frame s t"
  shows "tags (client t c) = tags (client s c)" "mon (client t c) = mon (client s c)"
    "bw (client t c) = bw (client s c)" "isfloating (client t c) = isfloating (client s c)"
    "isfullscreen (client t c) = isfullscreen (client s c)"
proof -
  have e: "nongeom (client t c) = nongeom (client s c)" using assms by (simp add: geom_frame_def)
  show "tags (client t c) = tags (client s c)" using e nongeom_fields(1) by metis
  show "mon (client t c) = mon (client s c)" using e nongeom_fields(2) by metis
  show "bw (client t c) = bw (client s c)" using e nongeom_fields(3) by metis
  show "isfloating (client t c) = isfloating (client s c)" using e nongeom_fields(4) by metis
  show "isfullscreen (client t c) = isfullscreen (client s c)" using e nongeom_fields(5) by metis
qed

lemma geom_frame_monitor:
  assumes "geom_frame s t"
  shows "seltags (monitor t m) = seltags (monitor s m)" "tagset (monitor t m) = tagset (monitor s m)"
    "sellt (monitor t m) = sellt (monitor s m)" "lt (monitor t m) = lt (monitor s m)"
    "stack (monitor t m) = stack (monitor s m)" "clients (monitor t m) = clients (monitor s m)"
    "sel (monitor t m) = sel (monitor s m)" "mfact (monitor t m) = mfact (monitor s m)"
proof -
  have e: "nosym (monitor t m) = nosym (monitor s m)" using assms by (simp add: geom_frame_def)
  show "seltags (monitor t m) = seltags (monitor s m)" using e nosym_fields(1) by metis
  show "tagset (monitor t m) = tagset (monitor s m)" using e nosym_fields(2) by metis
  show "sellt (monitor t m) = sellt (monitor s m)" using e nosym_fields(3) by metis
  show "lt (monitor t m) = lt (monitor s m)" using e nosym_fields(4) by metis
  show "stack (monitor t m) = stack (monitor s m)" using e nosym_fields(5) by metis
  show "clients (monitor t m) = clients (monitor s m)" using e nosym_fields(6) by metis
  show "sel (monitor t m) = sel (monitor s m)" using e nosym_fields(7) by metis
  show "mfact (monitor t m) = mfact (monitor s m)" using e nosym_fields(8) by metis
qed

lemma geom_frame_ISVISIBLE: "geom_frame s t \<Longrightarrow> ISVISIBLE t c = ISVISIBLE s c"
  by (simp add: ISVISIBLE_def geom_frame_client geom_frame_monitor)

lemma resize_frame: "geom_frame s (resize s c x y w h i)"
  by (simp add: resize_def resizeclient_def geom_frame_def nongeom_def split: prod.splits)

lemma monocle_loop_frame: "geom_frame s (monocle_loop s m cs)"
proof (induction s m cs rule: monocle_loop.induct)
  case (1 s m cs)
  show ?case
  proof (cases "nexttiled s cs")
    case Nil
    then show ?thesis by (simp add: monocle_loop.simps[of s m cs] geom_frame_refl)
  next
    case (Cons c rest)
    let ?s' = "resize s c (wx (monitor s m)) (wy (monitor s m))
              (ww (monitor s m) - 2 * bw (client s c))
              (wh (monitor s m) - 2 * bw (client s c)) False"
    have a: "geom_frame s ?s'" by (rule resize_frame)
    have b: "geom_frame ?s' (monocle_loop ?s' m rest)" by (rule 1[OF Cons])
    have c: "monocle_loop s m cs = monocle_loop ?s' m rest"
      by (simp add: monocle_loop.simps[of s m cs] Cons)
    show ?thesis unfolding c by (rule geom_frame_trans[OF a b])
  qed
qed

lemma tile_loop_frame: "geom_frame s (tile_loop s m n mwu i myu tyu cs)"
proof (induction s m n mwu i myu tyu cs rule: tile_loop.induct)
  case (1 s m n mwu i myu tyu cs)
  show ?case
  proof (cases "nexttiled s cs")
    case Nil
    then show ?thesis by (simp add: tile_loop.simps[of s m n mwu i myu tyu cs] geom_frame_refl)
  next
    case (Cons c rest)
    show ?thesis
    proof (cases "i < word_of_int (nmaster (monitor s m))")
      case True
      let ?h = "(word_of_int (wh (monitor s m)) - myu)
                       div (min n (word_of_int (nmaster (monitor s m))) - i)"
      let ?s' = "resize s c (wx (monitor s m))
                        (sint (word_of_int (wy (monitor s m)) + myu))
                        (sint (mwu - word_of_int (2 * bw (client s c))))
                        (sint (?h - word_of_int (2 * bw (client s c)))) False"
      have a: "geom_frame s ?s'" by (rule resize_frame)
      have b: "geom_frame ?s' (tile_loop ?s' m n mwu (i + 1) (myu + word_of_int (HEIGHT (client ?s' c))) tyu rest)"
        by (rule 1(1)[OF Cons True refl refl])
      have c: "tile_loop s m n mwu i myu tyu cs =
          tile_loop ?s' m n mwu (i + 1) (myu + word_of_int (HEIGHT (client ?s' c))) tyu rest"
        by (simp add: tile_loop.simps[of s m n mwu i myu tyu cs] Cons True Let_def)
      show ?thesis unfolding c by (rule geom_frame_trans[OF a b])
    next
      case False
      let ?h = "(word_of_int (wh (monitor s m)) - tyu) div (n - i)"
      let ?s' = "resize s c (sint (word_of_int (wx (monitor s m)) + mwu))
                        (sint (word_of_int (wy (monitor s m)) + tyu))
                        (sint (word_of_int (ww (monitor s m)) - mwu
                                 - word_of_int (2 * bw (client s c))))
                        (sint (?h - word_of_int (2 * bw (client s c)))) False"
      have a: "geom_frame s ?s'" by (rule resize_frame)
      have b: "geom_frame ?s' (tile_loop ?s' m n mwu (i + 1) myu (tyu + word_of_int (HEIGHT (client ?s' c))) rest)"
        by (rule 1(2)[OF Cons False refl refl])
      have c: "tile_loop s m n mwu i myu tyu cs =
          tile_loop ?s' m n mwu (i + 1) myu (tyu + word_of_int (HEIGHT (client ?s' c))) rest"
        by (simp add: tile_loop.simps[of s m n mwu i myu tyu cs] Cons False Let_def)
      show ?thesis unfolding c by (rule geom_frame_trans[OF a b])
    qed
  qed
qed

lemma tile_frame: "geom_frame s (tile s m)"
  by (simp add: tile_def Let_def geom_frame_refl tile_loop_frame)

lemma monocle_frame: "geom_frame s (monocle s m)"
proof -
  let ?n = "(word_of_nat (length (filter (ISVISIBLE s) (clients (monitor s m)))) :: uint)"
  let ?s1 = "(if 0 < ?n
               then s\<lparr>monitor := (monitor s)(m := (monitor s m)
                       \<lparr>ltsymbol := take 15 (''['' @ fmt_d (sint ?n) @ '']'')\<rparr>)\<rparr>
               else s)"
  have a: "geom_frame s ?s1" by (simp add: geom_frame_def nosym_def)
  have b: "geom_frame ?s1 (monocle_loop ?s1 m (clients (monitor ?s1 m)))" by (rule monocle_loop_frame)
  have c: "monocle s m = monocle_loop ?s1 m (clients (monitor ?s1 m))"
    by (simp add: monocle_def Let_def)
  show ?thesis unfolding c by (rule geom_frame_trans[OF a b])
qed

lemma showhide_frame: "geom_frame s (showhide s cs)"
proof (induction cs arbitrary: s)
  case Nil
  show ?case by (simp add: geom_frame_refl)
next
  case (Cons c cs)
  show ?case
  proof (cases "ISVISIBLE s c")
    case False
    then show ?thesis using Cons by simp
  next
    case True
    let ?s' = "(if (lt_arrange (lt (monitor s (mon (client s c)))
                 (sellt (monitor s (mon (client s c))))) = None
               \<or> isfloating (client s c))
             \<and> \<not> isfullscreen (client s c)
          then resize s c (cx (client s c)) (cy (client s c))
                 (cw (client s c)) (ch (client s c)) False
          else s)"
    have a: "geom_frame s ?s'" by (simp add: resize_frame geom_frame_refl)
    have b: "geom_frame ?s' (showhide ?s' cs)" by (rule Cons)
    have c: "showhide s (c # cs) = showhide ?s' cs" using True by simp
    show ?thesis unfolding c by (rule geom_frame_trans[OF a b])
  qed
qed

lemma arrangemon_frame: "geom_frame s (arrangemon s m)"
proof -
  let ?s1 = "s\<lparr>monitor := (monitor s)(m := (monitor s m)\<lparr>ltsymbol := take 16 (lt_symbol (lt (monitor s m) (sellt (monitor s m))))\<rparr>)\<rparr>"
  have a: "geom_frame s ?s1" by (simp add: geom_frame_def nosym_def)
  show ?thesis
  proof (cases "lt_arrange (lt (monitor s m) (sellt (monitor s m)))")
    case None
    then show ?thesis using a by (simp add: arrangemon_def Let_def)
  next
    case (Some f)
    show ?thesis
    proof (cases f)
      case Tile
      have "arrangemon s m = tile ?s1 m" using Some Tile by (simp add: arrangemon_def Let_def)
      then show ?thesis using geom_frame_trans[OF a tile_frame] by simp
    next
      case Monocle
      have "arrangemon s m = monocle ?s1 m" using Some Monocle by (simp add: arrangemon_def Let_def)
      then show ?thesis using geom_frame_trans[OF a monocle_frame] by simp
    qed
  qed
qed

lemma fold_showhide_frame:
  "geom_frame s (fold (\<lambda>m t. showhide t (stack (monitor t m))) ms s)"
proof (induction ms arbitrary: s)
  case Nil show ?case by (simp add: geom_frame_refl)
next
  case (Cons m ms)
  show ?case using geom_frame_trans[OF showhide_frame Cons] by simp
qed

lemma fold_arrangemon_frame:
  "geom_frame s (fold (\<lambda>m t. arrangemon t m) ms s)"
proof (induction ms arbitrary: s)
  case Nil show ?case by (simp add: geom_frame_refl)
next
  case (Cons m ms)
  show ?case using geom_frame_trans[OF arrangemon_frame Cons] by simp
qed

lemma arrange_frame: "geom_frame s (arrange s mo)"
proof (cases mo)
  case None
  then show ?thesis
    using geom_frame_trans[OF fold_showhide_frame fold_arrangemon_frame]
    by (simp add: arrange_def)
next
  case (Some m)
  then show ?thesis
    using geom_frame_trans[OF showhide_frame arrangemon_frame]
    by (simp add: arrange_def restack_def)
qed

lemma focus_view_frame: "view_frame s (focus s c0)"
  by (auto simp: view_frame_def focus_def detachstack_def attachstack_def clearurgent_def Let_def
      split: option.splits)

lemma focus_None_selmon:
  assumes "\<forall>c \<in> set (stack (monitor s (selmon s))). mon (client s c) = selmon s"
  shows "selmon (focus s None) = selmon s"
proof (cases "find (ISVISIBLE s) (stack (monitor s (selmon s)))")
  case None
  then show ?thesis by (simp add: focus_def)
next
  case (Some c)
  then have "c \<in> set (stack (monitor s (selmon s)))"
    by (auto simp: find_Some_iff)
  with assms have "mon (client s c) = selmon s" by blast
  with Some show ?thesis
    by (simp add: focus_def detachstack_def attachstack_def clearurgent_def Let_def)
qed

lemma view_frame_trans: "view_frame s t \<Longrightarrow> view_frame t u \<Longrightarrow> view_frame s u"
  by (simp add: view_frame_def)

lemma geom_frame_view_frame: "geom_frame s t \<Longrightarrow> view_frame s t"
  by (simp add: view_frame_def geom_frame_client geom_frame_monitor)

lemma focus_arrange_view_frame:
  "view_frame s (arrange (focus s None) (Some (selmon (focus s None))))"
  by (rule view_frame_trans[OF focus_view_frame geom_frame_view_frame[OF arrange_frame]])

lemma focus_arrange_selmon:
  assumes "\<forall>c \<in> set (stack (monitor s (selmon s))). mon (client s c) = selmon s"
  shows "selmon (arrange (focus s None) mo) = selmon s"
proof -
  have "selmon (arrange (focus s None) mo) = selmon (focus s None)"
    using arrange_frame[of "focus s None" mo] by (simp add: geom_frame_def)
  then show ?thesis using focus_None_selmon[OF assms] by simp
qed

lemma view_unfold:
  "view s ui = (if ui AND TAGMASK = tagset (monitor s (selmon s)) (seltags (monitor s (selmon s))) then s
     else arrange (focus (view_store s ui) None) (Some (selmon (focus (view_store s ui) None))))"
  by (simp add: view_def view_store_def Let_def)

lemma view_changes:
  assumes "ui AND TAGMASK \<noteq> tagset (monitor s (selmon s)) (seltags (monitor s (selmon s)))"
  shows "seltags (monitor (view s ui) (selmon s)) = seltags (monitor s (selmon s)) XOR 1"
    and "tagset (monitor (view s ui) (selmon s)) =
          (if ui AND TAGMASK \<noteq> 0
           then (tagset (monitor s (selmon s)))(seltags (monitor s (selmon s)) XOR 1 := ui AND TAGMASK)
           else tagset (monitor s (selmon s)))"
    and "m \<noteq> selmon s \<Longrightarrow> seltags (monitor (view s ui) m) = seltags (monitor s m)"
    and "m \<noteq> selmon s \<Longrightarrow> tagset (monitor (view s ui) m) = tagset (monitor s m)"
proof -
  have v: "view s ui = arrange (focus (view_store s ui) None) (Some (selmon (focus (view_store s ui) None)))"
    using assms by (simp add: view_unfold)
  have f: "view_frame (view_store s ui) (view s ui)"
    unfolding v by (rule focus_arrange_view_frame)
  show "seltags (monitor (view s ui) (selmon s)) = seltags (monitor s (selmon s)) XOR 1"
    using f by (simp add: view_frame_def view_store_def)
  show "tagset (monitor (view s ui) (selmon s)) =
          (if ui AND TAGMASK \<noteq> 0
           then (tagset (monitor s (selmon s)))(seltags (monitor s (selmon s)) XOR 1 := ui AND TAGMASK)
           else tagset (monitor s (selmon s)))"
    using f by (simp add: view_frame_def view_store_def)
  show "m \<noteq> selmon s \<Longrightarrow> seltags (monitor (view s ui) m) = seltags (monitor s m)"
    using f by (simp add: view_frame_def view_store_def)
  show "m \<noteq> selmon s \<Longrightarrow> tagset (monitor (view s ui) m) = tagset (monitor s m)"
    using f by (simp add: view_frame_def view_store_def)
qed

lemma view_selmon:
  assumes "\<forall>c \<in> set (stack (monitor s (selmon s))). mon (client s c) = selmon s"
  shows "selmon (view s ui) = selmon s"
proof (cases "ui AND TAGMASK = tagset (monitor s (selmon s)) (seltags (monitor s (selmon s)))")
  case True
  then show ?thesis by (simp add: view_unfold)
next
  case False
  have wf: "\<forall>c \<in> set (stack (monitor (view_store s ui) (selmon (view_store s ui)))).
      mon (client (view_store s ui) c) = selmon (view_store s ui)"
    using assms by (simp add: view_store_def)
  have "selmon (view s ui) = selmon (view_store s ui)"
    using False focus_arrange_selmon[OF wf] by (simp add: view_unfold)
  then show ?thesis by (simp add: view_store_def)
qed

lemma xor_one_neq: "(x::uint) XOR 1 \<noteq> x"
proof
  assume "x XOR 1 = x"
  then have "x XOR (x XOR 1) = x XOR x" by simp
  then show False by (simp add: xor.left_commute)
qed

lemma xor_one_twice: "((x::uint) XOR 1) XOR 1 = x"
  by (simp add: xor.assoc)

section \<open>Views\<close>

text \<open>
  C4. On a state whose stacked clients of the selected monitor point back to that
  monitor, and for a mask whose restriction to \<open>TAGMASK\<close> is not zero and is not the
  current tagset: after \<^verbatim>\<open>view(mask)\<close> and then \<^verbatim>\<open>view(0)\<close> the selected tagset
  \<^verbatim>\<open>tagset[seltags]\<close> of that monitor is the one it had before the first call.
\<close>

theorem view_then_view0_restores:
  assumes wf: "\<forall>c \<in> set (stack (monitor s (selmon s))). mon (client s c) = selmon s"
      and nz: "ui AND TAGMASK \<noteq> 0"
      and ne: "ui AND TAGMASK \<noteq> tagset (monitor s (selmon s)) (seltags (monitor s (selmon s)))"
  shows "tagset (monitor (view (view s ui) 0) (selmon s))
           (seltags (monitor (view (view s ui) 0) (selmon s)))
         = tagset (monitor s (selmon s)) (seltags (monitor s (selmon s)))"
proof -
  let ?m = "selmon s"
  let ?v = "view s ui"
  have sm: "selmon ?v = ?m" by (rule view_selmon[OF wf])
  have st1: "seltags (monitor ?v ?m) = seltags (monitor s ?m) XOR 1"
    by (rule view_changes(1)[OF ne])
  have ts1: "tagset (monitor ?v ?m) = (tagset (monitor s ?m))(seltags (monitor s ?m) XOR 1 := ui AND TAGMASK)"
    using view_changes(2)[OF ne] nz by simp
  have cur1: "tagset (monitor ?v ?m) (seltags (monitor ?v ?m)) = ui AND TAGMASK"
    by (simp add: st1 ts1)
  have ne2: "0 AND TAGMASK \<noteq> tagset (monitor ?v (selmon ?v)) (seltags (monitor ?v (selmon ?v)))"
    using nz by (simp add: sm cur1)
  have st2: "seltags (monitor (view ?v 0) ?m) = seltags (monitor s ?m)"
    using view_changes(1)[OF ne2] by (simp add: sm st1 xor_one_twice)
  have ts2: "tagset (monitor (view ?v 0) ?m) = tagset (monitor ?v ?m)"
    using view_changes(2)[OF ne2] by (simp add: sm)
  show ?thesis by (simp add: st2 ts2 ts1 xor_one_neq xor_one_neq[THEN not_sym])
qed

theorem view_then_view0_restores_witness:
  "(2 :: uint) AND TAGMASK \<noteq> 0
   \<and> (2 :: uint) AND TAGMASK \<noteq> tagset (monitor st_two (selmon st_two)) (seltags (monitor st_two (selmon st_two)))
   \<and> mon (client st_two 0) = selmon st_two \<and> mon (client st_two 1) = selmon st_two
   \<and> tagset (monitor (view (view st_two 2) 0) (selmon st_two))
        (seltags (monitor (view (view st_two 2) 0) (selmon st_two))) = 1"
  using view_then_view0_restores [of st_two 2]
  by (simp add: st_two_def scr_def TAGMASK_def createmon_def calloc_Client_def)

text \<open>
  C8 (as the code has it). \<^verbatim>\<open>view(0)\<close> writes no tagset slot of any monitor. It
  returns without any change only when the current tagset is 0; otherwise it flips
  \<^verbatim>\<open>seltags\<close> of the selected monitor, so that the other slot (the previous view)
  becomes the current tagset.
\<close>

theorem view_zero_effect:
  "(\<forall>m. tagset (monitor (view s 0) m) = tagset (monitor s m)) \<and>
   (if tagset (monitor s (selmon s)) (seltags (monitor s (selmon s))) = 0
    then view s 0 = s
    else seltags (monitor (view s 0) (selmon s)) = seltags (monitor s (selmon s)) XOR 1
       \<and> tagset (monitor (view s 0) (selmon s)) (seltags (monitor (view s 0) (selmon s)))
           = tagset (monitor s (selmon s)) (seltags (monitor s (selmon s)) XOR 1))"
proof (cases "tagset (monitor s (selmon s)) (seltags (monitor s (selmon s))) = 0")
  case True
  then show ?thesis by (simp add: view_unfold)
next
  case False
  then have ne: "0 AND TAGMASK \<noteq> tagset (monitor s (selmon s)) (seltags (monitor s (selmon s)))"
    by simp
  have a: "\<forall>m. tagset (monitor (view s 0) m) = tagset (monitor s m)"
  proof
    fix m
    show "tagset (monitor (view s 0) m) = tagset (monitor s m)"
      using view_changes(2)[OF ne] view_changes(4)[OF ne, of m] by (cases "m = selmon s") simp_all
  qed
  show ?thesis using False a view_changes(1)[OF ne] by simp
qed

theorem view_zero_effect_witness:
  "seltags (monitor (view st_two 0) (selmon st_two)) = 1
   \<and> tagset (monitor (view st_two 0) (selmon st_two)) 0 = 1
   \<and> tagset (monitor (view st_two 0) (selmon st_two)) 1 = 1"
  using view_zero_effect [of st_two]
  by (simp add: st_two_def scr_def createmon_def)

text \<open>
  C8 as stated fails: on the two-client state, whose current tagset is tag 1,
  \<^verbatim>\<open>view(0)\<close> changes \<^verbatim>\<open>seltags\<close>.
\<close>

theorem view_zero_changes_seltags:
  "seltags (monitor (view st_two 0) (selmon st_two)) \<noteq> seltags (monitor st_two (selmon st_two))"
proof -
  have "0 AND TAGMASK \<noteq> tagset (monitor st_two (selmon st_two)) (seltags (monitor st_two (selmon st_two)))"
    by (simp add: st_two_def scr_def createmon_def)
  from view_changes(1) [OF this] show ?thesis
    by (simp add: xor_one_neq)
qed

section \<open>Rules\<close>

text \<open>
  Whatever the rules matched, the tags \<^verbatim>\<open>applyrules\<close> leaves in the client are those
  of the current view of the client's monitor: line 544 overwrites the union of the
  rules' masks before line 545 tests it.
\<close>

lemma applyrules_tags:
  "tags (client (applyrules s c rc rn) c) =
     (if tagset (monitor s (mon (client (applyrules s c rc rn) c)))
            (seltags (monitor s (mon (client (applyrules s c rc rn) c)))) AND TAGMASK \<noteq> 0
      then tagset (monitor s (mon (client (applyrules s c rc rn) c)))
            (seltags (monitor s (mon (client (applyrules s c rc rn) c)))) AND TAGMASK
      else tagset (monitor s (mon (client (applyrules s c rc rn) c)))
            (seltags (monitor s (mon (client (applyrules s c rc rn) c)))))"
  by (simp add: applyrules_def Let_def)

text \<open>
  C1 at a failing input. A window of class Firefox is managed on a monitor that views
  tag 1. The second rule of config.h matches and contributes the mask \<open>1 << 8\<close>
  (256), which is not zero under \<open>TAGMASK\<close>; \<^verbatim>\<open>applyrules\<close> nevertheless leaves
  \<^verbatim>\<open>c->tags = 1\<close>, the monitor's view.
\<close>

theorem applyrules_firefox_tags:
  "tags (fold (applyrule st_fox ''Firefox'' ''Navigator'') rules
          ((client st_fox 0)\<lparr>isfloating := False, tags := 0\<rparr>)) AND TAGMASK = 256
   \<and> tags (client (applyrules st_fox 0 (Some ''Firefox'') (Some ''Navigator'')) 0) = 1"
  by (simp add: applyrules_def applyrule_def rules_def rule_field_matches_def mon_by_num_def
        st_fox_def scr_def calloc_Client_def createmon_def TAGMASK_def Let_def)

section \<open>The master area factor\<close>

lemma arrange_mfact: "mfact (monitor (arrange s mo) m) = mfact (monitor s m)"
  using arrange_frame[of s mo] by (rule geom_frame_monitor(8))

text \<open>The configured factor is 0.55 rounded to a float.\<close>

lemma cfg_mfact_float: "cfg_mfact = to_float (55 / 100)"
  by code_simp

text \<open>
  C9 (as the code has it). On a monitor with an arranging layout, \<^verbatim>\<open>setmfact\<close>
  computes the target \<open>f\<close> as a float (the float sum of the argument and the current
  factor for an argument below 1, the argument minus 1 rounded to float otherwise)
  and stores it when \<open>0.1 \<le> f \<le> 0.9\<close>, the bounds being the double constants;
  otherwise the factor is left as it was: the value is rejected, not clamped. So the
  factor lies between the two constants afterwards when the target was accepted or
  the factor lay there before.
\<close>

theorem setmfact_effect:
  assumes "lt_arrange (lt (monitor s (selmon s)) (sellt (monitor s (selmon s)))) \<noteq> None"
  shows "mfact (monitor (setmfact s (Some af)) (selmon s)) =
           (if double_0_1 \<le> (if af < 1 then to_float (af + mfact (monitor s (selmon s)))
                               else to_float (af - 1))
               \<and> (if af < 1 then to_float (af + mfact (monitor s (selmon s)))
                    else to_float (af - 1)) \<le> double_0_9
            then (if af < 1 then to_float (af + mfact (monitor s (selmon s)))
                  else to_float (af - 1))
            else mfact (monitor s (selmon s)))
       \<and> ((double_0_1 \<le> (if af < 1 then to_float (af + mfact (monitor s (selmon s)))
                             else to_float (af - 1))
              \<and> (if af < 1 then to_float (af + mfact (monitor s (selmon s)))
                   else to_float (af - 1)) \<le> double_0_9)
            \<or> (double_0_1 \<le> mfact (monitor s (selmon s))
                \<and> mfact (monitor s (selmon s)) \<le> double_0_9)
          \<longrightarrow> double_0_1 \<le> mfact (monitor (setmfact s (Some af)) (selmon s))
              \<and> mfact (monitor (setmfact s (Some af)) (selmon s)) \<le> double_0_9)"
proof -
  have e: "mfact (monitor (setmfact s (Some af)) (selmon s)) =
           (if double_0_1 \<le> (if af < 1 then to_float (af + mfact (monitor s (selmon s)))
                               else to_float (af - 1))
               \<and> (if af < 1 then to_float (af + mfact (monitor s (selmon s)))
                    else to_float (af - 1)) \<le> double_0_9
            then (if af < 1 then to_float (af + mfact (monitor s (selmon s)))
                  else to_float (af - 1))
            else mfact (monitor s (selmon s)))"
    using assms by (auto simp: setmfact_def Let_def arrange_mfact)
  show ?thesis unfolding e by (simp split: if_splits)
qed

text \<open>
  With the factor 0.5: the argument 0.4f (13421773/33554432) gives the float sum
  7549747/8388608, which is below the double 0.9 and is stored, although the exact
  sum is above it; the argument 0.25 gives 0.75; the argument 0.75 gives 1.25, which
  is refused.
\<close>

theorem setmfact_effect_witness:
  "lt_arrange (lt (monitor st_two (selmon st_two)) (sellt (monitor st_two (selmon st_two)))) \<noteq> None
   \<and> mfact (monitor (setmfact st_two (Some (13421773 / 33554432))) (selmon st_two))
       = 7549747 / 8388608
   \<and> double_0_9 < 13421773 / 33554432 + mfact (monitor st_two (selmon st_two))
   \<and> mfact (monitor (setmfact st_two (Some (1 / 4))) (selmon st_two)) = 3 / 4
   \<and> mfact (monitor (setmfact st_two (Some (3 / 4))) (selmon st_two)) = 1 / 2"
proof -
  have h: "lt_arrange (lt (monitor st_two (selmon st_two)) (sellt (monitor st_two (selmon st_two))))
             \<noteq> None"
    by code_simp
  have a: "(if double_0_1 \<le> (if (13421773 / 33554432 :: real) < 1 then to_float (13421773 / 33554432 + mfact (monitor st_two (selmon st_two)))
                               else to_float (13421773 / 33554432 - 1))
               \<and> (if (13421773 / 33554432 :: real) < 1 then to_float (13421773 / 33554432 + mfact (monitor st_two (selmon st_two)))
                    else to_float (13421773 / 33554432 - 1)) \<le> double_0_9
            then (if (13421773 / 33554432 :: real) < 1 then to_float (13421773 / 33554432 + mfact (monitor st_two (selmon st_two)))
                  else to_float (13421773 / 33554432 - 1))
            else mfact (monitor st_two (selmon st_two))) = 7549747 / 8388608"
    by code_simp
  have b: "(if double_0_1 \<le> (if (1 / 4 :: real) < 1 then to_float (1 / 4 + mfact (monitor st_two (selmon st_two)))
                               else to_float (1 / 4 - 1))
               \<and> (if (1 / 4 :: real) < 1 then to_float (1 / 4 + mfact (monitor st_two (selmon st_two)))
                    else to_float (1 / 4 - 1)) \<le> double_0_9
            then (if (1 / 4 :: real) < 1 then to_float (1 / 4 + mfact (monitor st_two (selmon st_two)))
                  else to_float (1 / 4 - 1))
            else mfact (monitor st_two (selmon st_two))) = 3 / 4"
    by code_simp
  have c: "(if double_0_1 \<le> (if (3 / 4 :: real) < 1 then to_float (3 / 4 + mfact (monitor st_two (selmon st_two)))
                               else to_float (3 / 4 - 1))
               \<and> (if (3 / 4 :: real) < 1 then to_float (3 / 4 + mfact (monitor st_two (selmon st_two)))
                    else to_float (3 / 4 - 1)) \<le> double_0_9
            then (if (3 / 4 :: real) < 1 then to_float (3 / 4 + mfact (monitor st_two (selmon st_two)))
                  else to_float (3 / 4 - 1))
            else mfact (monitor st_two (selmon st_two))) = 1 / 2"
    by code_simp
  have x: "mfact (monitor (setmfact st_two (Some (13421773 / 33554432))) (selmon st_two))
             = 7549747 / 8388608"
    using setmfact_effect [OF h, of "13421773 / 33554432", THEN conjunct1] unfolding a .
  have y: "mfact (monitor (setmfact st_two (Some (1 / 4))) (selmon st_two)) = 3 / 4"
    using setmfact_effect [OF h, of "1 / 4", THEN conjunct1] unfolding b .
  have z: "mfact (monitor (setmfact st_two (Some (3 / 4))) (selmon st_two)) = 1 / 2"
    using setmfact_effect [OF h, of "3 / 4", THEN conjunct1] unfolding c .
  have d: "double_0_9 < 13421773 / 33554432 + mfact (monitor st_two (selmon st_two))"
    by code_simp
  show ?thesis using h x y z d by simp
qed

text \<open>
  C9 as stated fails: with the factor 0.5 and the argument 0.75 the target is 1.25,
  whose clamp into \<open>[0.1, 0.9]\<close> is 0.9 (as a double, and as a float as well), but the
  factor stays 0.5.
\<close>

theorem setmfact_rejects_not_clamps:
  "mfact (monitor (setmfact st_two (Some (3 / 4))) (selmon st_two)) = 1 / 2
   \<and> mfact (monitor (setmfact st_two (Some (3 / 4))) (selmon st_two))
     \<noteq> max double_0_1
          (min double_0_9 (to_float (3 / 4 + mfact (monitor st_two (selmon st_two)))))
   \<and> mfact (monitor (setmfact st_two (Some (3 / 4))) (selmon st_two))
     \<noteq> to_float (max (1 / 10) (min (9 / 10) (3 / 4 + mfact (monitor st_two (selmon st_two)))))"
  by code_simp

section \<open>Detaching the selected client\<close>

lemma detachstack_ISVISIBLE: "ISVISIBLE (detachstack s c) d = ISVISIBLE s d"
  by (simp add: detachstack_def ISVISIBLE_def Let_def)

lemma ISVISIBLE_stack_upd:
  "ISVISIBLE (s\<lparr>monitor := (monitor s)(m := (monitor s m)\<lparr>stack := xs\<rparr>)\<rparr>) = ISVISIBLE s"
  by (rule ext) (simp add: ISVISIBLE_def)

lemma find_None_set: "find P xs = None \<longleftrightarrow> (\<forall>x \<in> set xs. \<not> P x)"
  by (induction xs) auto

lemma find_Some_first:
  "find P xs = Some d \<Longrightarrow> d \<in> set xs \<and> P d \<and> (\<forall>e \<in> set (takeWhile (\<lambda>e. e \<noteq> d) xs). \<not> P e)"
  by (induction xs) (auto split: if_splits)

text \<open>
  C10. When the selected client \<open>c\<close> of a monitor is unlinked from that monitor's
  stack by \<^verbatim>\<open>detachstack\<close>, the stack loses \<open>c\<close> and the monitor's \<^verbatim>\<open>sel\<close> becomes
  the first visible client of the remaining stack, or \<^verbatim>\<open>NULL\<close> when none is visible:
  a new \<^verbatim>\<open>sel\<close> is a member of the stack, is visible, is not \<open>c\<close>, and every client
  above it in the stack is invisible.
\<close>

theorem detachstack_reselects:
  assumes selc: "sel (monitor s (mon (client s c))) = Some c"
      and mem: "c \<in> set (stack (monitor s (mon (client s c))))"
      and dist: "distinct (stack (monitor s (mon (client s c))))"
  shows "stack (monitor (detachstack s c) (mon (client s c)))
           = remove1 c (stack (monitor s (mon (client s c))))
       \<and> c \<notin> set (stack (monitor (detachstack s c) (mon (client s c))))
       \<and> sel (monitor (detachstack s c) (mon (client s c)))
           = find (ISVISIBLE (detachstack s c)) (stack (monitor (detachstack s c) (mon (client s c))))
       \<and> (case sel (monitor (detachstack s c) (mon (client s c))) of
             None \<Rightarrow> \<forall>d \<in> set (stack (monitor (detachstack s c) (mon (client s c)))).
                        \<not> ISVISIBLE (detachstack s c) d
           | Some d \<Rightarrow> d \<in> set (stack (monitor (detachstack s c) (mon (client s c))))
                \<and> d \<noteq> c \<and> ISVISIBLE (detachstack s c) d
                \<and> (\<forall>e \<in> set (takeWhile (\<lambda>e. e \<noteq> d)
                               (stack (monitor (detachstack s c) (mon (client s c))))).
                      \<not> ISVISIBLE (detachstack s c) e))"
proof -
  let ?m = "mon (client s c)"
  let ?t = "detachstack s c"
  let ?st = "remove1 c (stack (monitor s ?m))"
  have vis: "ISVISIBLE ?t = ISVISIBLE s" by (rule ext) (rule detachstack_ISVISIBLE)
  have st: "stack (monitor ?t ?m) = ?st" by (simp add: detachstack_def Let_def)
  have notin: "c \<notin> set ?st" using dist by simp
  have sl: "sel (monitor ?t ?m) = find (ISVISIBLE s) ?st"
    using selc by (simp add: detachstack_def Let_def ISVISIBLE_stack_upd)
  have cs: "(case find (ISVISIBLE s) ?st of
             None \<Rightarrow> \<forall>d \<in> set ?st. \<not> ISVISIBLE s d
           | Some d \<Rightarrow> d \<in> set ?st \<and> d \<noteq> c \<and> ISVISIBLE s d
                \<and> (\<forall>e \<in> set (takeWhile (\<lambda>e. e \<noteq> d) ?st). \<not> ISVISIBLE s e))"
  proof (cases "find (ISVISIBLE s) ?st")
    case None
    have "\<forall>d \<in> set ?st. \<not> ISVISIBLE s d" using None by (simp add: find_None_set)
    then show ?thesis by (simp add: None)
  next
    case (Some d)
    from find_Some_first[OF Some] notin show ?thesis by (auto simp: Some)
  qed
  show ?thesis unfolding vis st sl using notin cs by simp
qed

theorem detachstack_reselects_witness:
  "sel (monitor st_two (mon (client st_two 0))) = Some 0
   \<and> stack (monitor st_two (mon (client st_two 0))) = [0, 1]
   \<and> stack (monitor (detachstack st_two 0) (mon (client st_two 0))) = [1]
   \<and> sel (monitor (detachstack st_two 0) (mon (client st_two 0))) = Some 1"
  using detachstack_reselects [of st_two 0]
  by (simp add: st_two_def scr_def createmon_def calloc_Client_def detachstack_def
        ISVISIBLE_def Let_def)

section \<open>Toggling a tag\<close>

lemma toggletag_unfold:
  assumes "sel (monitor s (selmon s)) = Some c"
  shows "toggletag s ui =
     (if tags (client s c) XOR (ui AND TAGMASK) \<noteq> 0
      then arrange (focus (toggletag_store s c ui) None)
             (Some (selmon (focus (toggletag_store s c ui) None)))
      else s)"
  using assms by (simp add: toggletag_def toggletag_store_def Let_def)

lemma toggletag_tags:
  assumes "sel (monitor s (selmon s)) = Some c"
  shows "tags (client (toggletag s ui) d) =
     (if d = c \<and> tags (client s c) XOR (ui AND TAGMASK) \<noteq> 0
      then tags (client s c) XOR (ui AND TAGMASK) else tags (client s d))"
proof (cases "tags (client s c) XOR (ui AND TAGMASK) \<noteq> 0")
  case False
  then show ?thesis by (simp add: toggletag_unfold[OF assms])
next
  case True
  have "view_frame (toggletag_store s c ui) (toggletag s ui)"
    using True focus_arrange_view_frame[of "toggletag_store s c ui"]
    by (simp add: toggletag_unfold[OF assms])
  then have "tags (client (toggletag s ui) d) = tags (client (toggletag_store s c ui) d)"
    by (simp add: view_frame_def)
  then show ?thesis using True by (simp add: toggletag_store_def)
qed

text \<open>
  C6 (as the code has it). For the selected client \<open>c\<close>, one \<^verbatim>\<open>toggletag(m)\<close>
  replaces \<^verbatim>\<open>c->tags\<close> by \<open>c.tags XOR (m AND TAGMASK)\<close> exactly when that value is
  not zero. A second \<^verbatim>\<open>toggletag(m)\<close> acts on whatever client \<^verbatim>\<open>focus(NULL)\<close>
  selected at the end of the first call; when that is still \<open>c\<close> and both XOR results
  are not zero, the two calls together leave \<^verbatim>\<open>c->tags\<close> as it was.
\<close>

theorem toggletag_effect:
  assumes "sel (monitor s (selmon s)) = Some c"
  shows "tags (client (toggletag s ui) c) =
           (if tags (client s c) XOR (ui AND TAGMASK) \<noteq> 0
            then tags (client s c) XOR (ui AND TAGMASK) else tags (client s c))
       \<and> (sel (monitor (toggletag s ui) (selmon (toggletag s ui))) = Some c
            \<and> tags (client s c) XOR (ui AND TAGMASK) \<noteq> 0
            \<and> (tags (client s c) XOR (ui AND TAGMASK)) XOR (ui AND TAGMASK) \<noteq> 0
          \<longrightarrow> tags (client (toggletag (toggletag s ui) ui) c) = tags (client s c))"
proof (intro conjI impI)
  show "tags (client (toggletag s ui) c) =
           (if tags (client s c) XOR (ui AND TAGMASK) \<noteq> 0
            then tags (client s c) XOR (ui AND TAGMASK) else tags (client s c))"
    by (simp add: toggletag_tags[OF assms])
next
  assume a: "sel (monitor (toggletag s ui) (selmon (toggletag s ui))) = Some c
            \<and> tags (client s c) XOR (ui AND TAGMASK) \<noteq> 0
            \<and> (tags (client s c) XOR (ui AND TAGMASK)) XOR (ui AND TAGMASK) \<noteq> 0"
  have t1: "tags (client (toggletag s ui) c) = tags (client s c) XOR (ui AND TAGMASK)"
    using a by (simp add: toggletag_tags[OF assms])
  have "tags (client (toggletag (toggletag s ui) ui) c) =
          (tags (client s c) XOR (ui AND TAGMASK)) XOR (ui AND TAGMASK)"
    using a toggletag_tags[of "toggletag s ui" c ui c] by (simp add: t1)
  then show "tags (client (toggletag (toggletag s ui) ui) c) = tags (client s c)"
    by (simp add: xor.assoc)
qed


lemmas state_defs = st_two_def scr_def createmon_def calloc_Client_def

lemma st_two_sel: "sel (monitor st_two (selmon st_two)) = Some 0"
  by (simp add: state_defs)

lemma st_two_toggle2:
  "sel (monitor (toggletag st_two 2) (selmon (toggletag st_two 2))) = Some 0"
  by code_simp

theorem toggletag_effect_witness:
  "sel (monitor st_two (selmon st_two)) = Some 0
   \<and> sel (monitor (toggletag st_two 2) (selmon (toggletag st_two 2))) = Some 0
   \<and> tags (client (toggletag st_two 2) 0) = 3
   \<and> tags (client (toggletag (toggletag st_two 2) 2) 0) = tags (client st_two 0)"
  using toggletag_effect [of st_two 0 2] st_two_sel st_two_toggle2
  by (simp add: state_defs TAGMASK_def)

lemma st_two_toggle3:
  "sel (monitor (toggletag st_two 3) (selmon (toggletag st_two 3))) = Some 1"
  by code_simp

text \<open>
  C6 as stated fails: client 0 is selected with tags 1 on the view of tag 1. After
  \<^verbatim>\<open>toggletag(3)\<close> its tags are 2, it is no longer visible and client 1 is
  selected; the second \<^verbatim>\<open>toggletag(3)\<close> toggles client 1. Both XOR results for
  client 0 (2 and 1) are not zero, and its tags end as 2, not 1.
\<close>

theorem toggletag_twice_not_identity:
  "sel (monitor st_two (selmon st_two)) = Some 0
   \<and> tags (client st_two 0) XOR (3 AND TAGMASK) \<noteq> 0
   \<and> (tags (client st_two 0) XOR (3 AND TAGMASK)) XOR (3 AND TAGMASK) \<noteq> 0
   \<and> tags (client (toggletag (toggletag st_two 3) 3) 0) \<noteq> tags (client st_two 0)"
proof -
  have a: "tags (client (toggletag st_two 3) 0) = 2"
    unfolding toggletag_tags[OF st_two_sel] by (simp add: state_defs TAGMASK_def)
  have b: "tags (client (toggletag (toggletag st_two 3) 3) 0) = 2"
    unfolding toggletag_tags[OF st_two_toggle3] by (simp add: a)
  show ?thesis using b by (simp add: state_defs TAGMASK_def)
qed

section \<open>Size hints applied twice\<close>

lemma sizehints_wh_plain:
  assumes "plain_hints C"
  shows "sizehints_wh C w h = (max w (minw C), max h (minh C))"
proof -
  have i: "incw C = 0" "inch C = 0" "maxw C = 0" "maxh C = 0"
    using assms by (simp_all add: plain_hints_def)
  have a: "(0 < mina C \<and> 0 < maxa C \<and> P) = False" for P
    using assms by (auto simp: plain_hints_def)
  show ?thesis
  proof (cases "basew C = minw C \<and> baseh C = minh C")
    case True
    then show ?thesis by (simp add: sizehints_wh_def Let_def i a)
  next
    case False
    then have b: "(basew C = minw C \<and> baseh C = minh C) = False" by simp
    show ?thesis unfolding sizehints_wh_def Let_def b by (simp add: i a)
  qed
qed

lemma applysizehints_plain:
  assumes "plain_hints (client s c)"
  shows "snd (applysizehints s c x y w h interact) =
     (clamp_coord interact (sw s) (wx (monitor s (mon (client s c)))) (ww (monitor s (mon (client s c))))
         (WIDTH (client s c)) (2 * bw (client s c)) x (max 1 w),
      clamp_coord interact (sh s) (wy (monitor s (mon (client s c)))) (wh (monitor s (mon (client s c))))
         (HEIGHT (client s c)) (2 * bw (client s c)) y (max 1 h),
      max (if max 1 w < bh s then bh s else max 1 w) (minw (client s c)),
      max (if max 1 h < bh s then bh s else max 1 h) (minh (client s c)))"
  using assms
  by (simp add: applysizehints_def resizehints_def sizehints_wh_plain Let_def clamp_coord_def)

lemma clamp_coord_idem:
  assumes "0 < len" "0 < outer" "0 \<le> scr_len" "w1 \<le> w1'"
  shows "clamp_coord interact scr_len lo len outer bw2
           (clamp_coord interact scr_len lo len outer bw2 x0 w1) w1'
         = clamp_coord interact scr_len lo len outer bw2 x0 w1"
  using assms by (cases interact) (auto simp: clamp_coord_def Let_def)

lemma size_idem:
  "max (if max 1 (max (if max 1 w < b then b else max 1 w) m) < b then b
        else max 1 (max (if max 1 w < b then b else max 1 w) m)) m
   = max (if max 1 (w::int) < b then b else max 1 w) m"
  by (simp add: max_def)

lemma size_grows: "max 1 (w::int) \<le> max 1 (max (if max 1 w < b then b else max 1 w) m)"
  by (simp add: max_def)

text \<open>
  C7 (as the code has it). For a client whose size hints have no resize increment, no
  maximum size and no aspect limit, whose current outer width and height are positive,
  on a monitor with a work area of positive extent and a screen of non-negative size:
  \<^verbatim>\<open>applysizehints\<close> applied to the rectangle it returned returns the same
  rectangle, for every requested rectangle and either value of \<^verbatim>\<open>interact\<close>.
\<close>

theorem applysizehints_idempotent_plain:
  assumes ph: "plain_hints (client s c)"
      and pos: "0 < WIDTH (client s c)" "0 < HEIGHT (client s c)"
      and area: "0 < ww (monitor s (mon (client s c)))" "0 < wh (monitor s (mon (client s c)))"
      and screen: "0 \<le> sw s" "0 \<le> sh s"
  shows "snd (applysizehints s c
                (fst (snd (applysizehints s c x y w h interact)))
                (fst (snd (snd (applysizehints s c x y w h interact))))
                (fst (snd (snd (snd (applysizehints s c x y w h interact)))))
                (snd (snd (snd (snd (applysizehints s c x y w h interact)))))
                interact)
         = snd (applysizehints s c x y w h interact)"
  unfolding applysizehints_plain[OF ph] fst_conv snd_conv size_idem
  by (simp only: clamp_coord_idem[OF area(1) pos(1) screen(1) size_grows]
        clamp_coord_idem[OF area(2) pos(2) screen(2) size_grows])

theorem applysizehints_idempotent_plain_witness:
  "plain_hints (client scr 0) \<and> 0 < WIDTH (client scr 0) \<and> 0 < HEIGHT (client scr 0)
   \<and> 0 < ww (monitor scr (mon (client scr 0))) \<and> 0 < wh (monitor scr (mon (client scr 0)))
   \<and> 0 \<le> sw scr \<and> 0 \<le> sh scr
   \<and> snd (applysizehints scr 0 2000 (- 50) 5 0 False) = (998, 0, 5, 1)
   \<and> snd (applysizehints scr 0
            (fst (snd (applysizehints scr 0 2000 (- 50) 5 0 False)))
            (fst (snd (snd (applysizehints scr 0 2000 (- 50) 5 0 False))))
            (fst (snd (snd (snd (applysizehints scr 0 2000 (- 50) 5 0 False)))))
            (snd (snd (snd (snd (applysizehints scr 0 2000 (- 50) 5 0 False)))))
            False)
       = snd (applysizehints scr 0 2000 (- 50) 5 0 False)"
proof -
  have h1: "plain_hints (client scr 0)" by code_simp
  have h2: "0 < WIDTH (client scr 0)" by code_simp
  have h3: "0 < HEIGHT (client scr 0)" by code_simp
  have h4: "0 < ww (monitor scr (mon (client scr 0)))" by code_simp
  have h5: "0 < wh (monitor scr (mon (client scr 0)))" by code_simp
  have h6: "0 \<le> sw scr" by code_simp
  have h7: "0 \<le> sh scr" by code_simp
  have v: "snd (applysizehints scr 0 2000 (- 50) 5 0 False) = (998, 0, 5, 1)" by code_simp
  note applysizehints_idempotent_plain [OF h1 h2 h3 h4 h5 h6 h7, of 2000 "- 50" 5 0 False]
  with h1 h2 h3 h4 h5 h6 h7 v show ?thesis by blast
qed

text \<open>
  C7 as stated fails: with a height increment of 7 and a maximum height of 20, the
  request \<open>(0, 0, 30, 30)\<close> is adjusted to \<open>(0, 0, 30, 20)\<close> (28 is a multiple of 7,
  then the maximum cuts it to 20), and that rectangle is adjusted again to
  \<open>(0, 0, 30, 14)\<close>.
\<close>

theorem applysizehints_not_idempotent:
  "snd (applysizehints st_inc 0 0 0 30 30 False) = (0, 0, 30, 20)
   \<and> snd (applysizehints st_inc 0 0 0 30 20 False) = (0, 0, 30, 14)"
  by code_simp

section \<open>What a resize does\<close>

lemma applysizehints_dirty:
  "fst (applysizehints s c x y w h i) \<longleftrightarrow> snd (applysizehints s c x y w h i) \<noteq> geom (client s c)"
  by (simp only: applysizehints_def Let_def geom_def fst_conv snd_conv prod.inject de_Morgan_conj)

lemma resize_geom:
  "geom (client (resize s c x y w h i) c) = snd (applysizehints s c x y w h i)"
proof (cases "applysizehints s c x y w h i")
  case (fields d x' y' w' h')
  show ?thesis
  proof (cases d)
    case True
    then show ?thesis by (simp add: resize_def fields resizeclient_def geom_def)
  next
    case False
    then have "snd (applysizehints s c x y w h i) = geom (client s c)"
      using applysizehints_dirty[of s c x y w h i] by (simp add: fields)
    then show ?thesis using False by (simp add: resize_def fields)
  qed
qed

lemma resize_other: "d \<noteq> c \<Longrightarrow> client (resize s c x y w h i) d = client s d"
  by (simp add: resize_def resizeclient_def split: prod.splits)

lemma resize_monitor: "monitor (resize s c x y w h i) = monitor s"
  by (simp add: resize_def resizeclient_def split: prod.splits)

lemma resize_globals:
  "sw (resize s c x y w h i) = sw s" "sh (resize s c x y w h i) = sh s"
  "bh (resize s c x y w h i) = bh s" "selmon (resize s c x y w h i) = selmon s"
  "mons (resize s c x y w h i) = mons s"
  by (simp_all add: resize_def resizeclient_def split: prod.splits)

lemma applysizehints_cong:
  assumes "client t c = client s c" "monitor t = monitor s" "sw t = sw s" "sh t = sh s" "bh t = bh s"
  shows "applysizehints t c x y w h i = applysizehints s c x y w h i"
  by (simp only: applysizehints_def assms)

lemma geom_frame_tiled: "geom_frame s t \<Longrightarrow> tiled t c = tiled s c"
  by (simp add: tiled_def geom_frame_ISVISIBLE geom_frame_client)

lemma nexttiled_tiled: "nexttiled s (c # cs) = (if tiled s c then c # cs else nexttiled s cs)"
  by (auto simp: nexttiled_def tiled_def)

lemma nosym_eq_geometry:
  assumes "nosym M' = nosym M"
  shows "wx M' = wx M" "wy M' = wy M" "ww M' = ww M" "wh M' = wh M"
    "lt M' = lt M" "sellt M' = sellt M"
proof -
  show "wx M' = wx M" using assms nosym_fields(10) by metis
  show "wy M' = wy M" using assms nosym_fields(11) by metis
  show "ww M' = ww M" using assms nosym_fields(12) by metis
  show "wh M' = wh M" using assms nosym_fields(13) by metis
  show "lt M' = lt M" using assms nosym_fields(4) by metis
  show "sellt M' = sellt M" using assms nosym_fields(3) by metis
qed

lemma applysizehints_nosym_cong:
  assumes c: "client t c = client s c"
      and m: "nosym (monitor t (mon (client s c))) = nosym (monitor s (mon (client s c)))"
      and g: "sw t = sw s" "sh t = sh s" "bh t = bh s"
  shows "applysizehints t c x y w h i = applysizehints s c x y w h i"
  by (simp only: applysizehints_def Let_def c g nosym_eq_geometry[OF m])

lemma applysizehints_exact:
  assumes ph: "plain_hints (client s c)"
      and x: "x < wx (monitor s (mon (client s c))) + ww (monitor s (mon (client s c)))"
             "wx (monitor s (mon (client s c))) < x + w + 2 * bw (client s c)"
      and y: "y < wy (monitor s (mon (client s c))) + wh (monitor s (mon (client s c)))"
             "wy (monitor s (mon (client s c))) < y + h + 2 * bw (client s c)"
      and w: "1 \<le> w" "bh s \<le> w" "minw (client s c) \<le> w"
      and h: "1 \<le> h" "bh s \<le> h" "minh (client s c) \<le> h"
  shows "snd (applysizehints s c x y w h False) = (x, y, w, h)"
  using x y w h by (simp add: applysizehints_plain[OF ph] clamp_coord_def max_def)

lemma no_sizehints_plain: "no_sizehints C \<Longrightarrow> plain_hints C"
  by (simp add: no_sizehints_def plain_hints_def)

section \<open>The monocle layout\<close>

lemma monocle_loop_Nil: "monocle_loop s m [] = s"
  by (simp add: monocle_loop.simps[of s m "[]"] nexttiled_def)

lemma monocle_loop_Cons:
  "monocle_loop s m (c # cs) =
     (if tiled s c
      then monocle_loop
           (resize s c (wx (monitor s m)) (wy (monitor s m))
              (ww (monitor s m) - 2 * bw (client s c))
              (wh (monitor s m) - 2 * bw (client s c)) False)
           m cs
      else monocle_loop s m cs)"
  by (simp add: monocle_loop.simps[of s m "c # cs"] monocle_loop.simps[of s m cs] nexttiled_tiled)

lemma monocle_loop_other:
  "c \<notin> set cs \<or> \<not> tiled s c \<Longrightarrow> client (monocle_loop s m cs) c = client s c"
proof (induction cs arbitrary: s)
  case Nil
  show ?case by (simp add: monocle_loop_Nil)
next
  case (Cons d cs)
  show ?case
  proof (cases "tiled s d")
    case False
    have "c \<notin> set cs \<or> \<not> tiled s c" using Cons.prems by auto
    from Cons.IH[OF this] False show ?thesis by (simp add: monocle_loop_Cons)
  next
    case True
    let ?s' = "resize s d (wx (monitor s m)) (wy (monitor s m))
              (ww (monitor s m) - 2 * bw (client s d))
              (wh (monitor s m) - 2 * bw (client s d)) False"
    have ne: "c \<noteq> d" using Cons.prems True by auto
    have "tiled ?s' c = tiled s c" by (rule geom_frame_tiled[OF resize_frame])
    then have "c \<notin> set cs \<or> \<not> tiled ?s' c" using Cons.prems by auto
    from Cons.IH[OF this] have "client (monocle_loop ?s' m cs) c = client ?s' c" .
    also have "\<dots> = client s c" using ne by (rule resize_other)
    finally show ?thesis using True by (simp add: monocle_loop_Cons)
  qed
qed

lemma monocle_loop_geom:
  assumes "distinct cs" "c \<in> set cs" "tiled s c"
  shows "geom (client (monocle_loop s m cs) c) =
           snd (applysizehints s c (wx (monitor s m)) (wy (monitor s m))
                  (ww (monitor s m) - 2 * bw (client s c))
                  (wh (monitor s m) - 2 * bw (client s c)) False)"
  using assms
proof (induction cs arbitrary: s)
  case Nil
  then show ?case by simp
next
  case (Cons d cs)
  let ?s' = "resize s d (wx (monitor s m)) (wy (monitor s m))
              (ww (monitor s m) - 2 * bw (client s d))
              (wh (monitor s m) - 2 * bw (client s d)) False"
  show ?case
  proof (cases "c = d")
    case True
    have t: "tiled s d" using Cons.prems True by simp
    have "d \<notin> set cs" using Cons.prems by simp
    then have "client (monocle_loop ?s' m cs) d = client ?s' d"
      by (simp add: monocle_loop_other)
    then show ?thesis using t True by (simp add: monocle_loop_Cons resize_geom)
  next
    case False
    then have mem: "c \<in> set cs" using Cons.prems by simp
    have dist: "distinct cs" using Cons.prems by simp
    show ?thesis
    proof (cases "tiled s d")
      case nt: False
      from Cons.IH[OF dist mem Cons.prems(3)] nt show ?thesis by (simp add: monocle_loop_Cons)
    next
      case True
      have t': "tiled ?s' c" using Cons.prems(3) geom_frame_tiled[OF resize_frame, of s d] by simp
      have c': "client ?s' c = client s c" using False by (rule resize_other)
      have a': "\<And>x y w h. applysizehints ?s' c x y w h False = applysizehints s c x y w h False"
        by (rule applysizehints_cong) (simp_all add: c' resize_monitor resize_globals)
      from Cons.IH[OF dist mem t'] True show ?thesis
        by (simp add: monocle_loop_Cons a' c' resize_monitor)
    qed
  qed
qed

lemma sint_of_nat_small:
  assumes "N < 2 ^ 31"
  shows "sint (word_of_nat N :: 32 word) = int N"
proof -
  have "sint (word_of_nat N :: 32 word) = sint (word_of_int (int N) :: 32 word)" by simp
  also have "\<dots> = (int N + 2 ^ (LENGTH(32) - 1)) mod 2 ^ LENGTH(32) - 2 ^ (LENGTH(32) - 1)"
    by (rule int_word_sint)
  also have "\<dots> = int N" using assms by simp
  finally show ?thesis .
qed

lemma of_nat_pos_small:
  assumes "0 < N" "N < 2 ^ 31"
  shows "0 < (word_of_nat N :: 32 word)"
proof -
  have "unat (word_of_nat N :: 32 word) = N" using assms by (simp add: unat_of_nat)
  then show ?thesis using assms by (simp add: word_less_nat_alt)
qed

lemma dec_length: "0 < k \<Longrightarrow> n < 10 ^ k \<Longrightarrow> length (dec n) \<le> k"
proof (induction n arbitrary: k rule: dec.induct)
  case (1 n)
  show ?case
  proof (cases "n < 10")
    case True
    then show ?thesis using 1(2) by (simp add: dec.simps[of n])
  next
    case False
    then have k2: "0 < k - 1" using 1(2,3) by (cases k; cases "k - 1") auto
    have "n div 10 < 10 ^ (k - 1)"
    proof -
      have "n < 10 * 10 ^ (k - 1)" using 1(3) k2 by (cases k) auto
      then show ?thesis by (simp add: less_mult_imp_div_less mult.commute)
    qed
    from 1(1)[OF False k2 this] have "length (dec (n div 10)) \<le> k - 1" .
    then show ?thesis using False k2 by (simp add: dec.simps[of n])
  qed
qed

lemma monocle_symbol_fits:
  assumes "N < 2 ^ 31"
  shows "take 15 (''['' @ dec N @ '']'') = ''['' @ dec N @ '']''"
proof -
  have "N < 10 ^ 10" using assms by simp
  then have "length (dec N) \<le> 10" using dec_length[of 10 N] by simp
  then show ?thesis by simp
qed

lemma monocle_loop_monitor: "monitor (monocle_loop s m cs) = monitor s"
proof (induction cs arbitrary: s)
  case Nil
  show ?case by (simp add: monocle_loop_Nil)
next
  case (Cons d cs)
  show ?case by (simp add: monocle_loop_Cons Cons.IH resize_monitor)
qed

lemma monocle_unfold:
  "monocle s m = monocle_loop (monocle_symbol s m) m (clients (monitor s m))"
  by (simp add: monocle_def monocle_symbol_def Let_def)

lemma monocle_symbol_frame: "geom_frame s (monocle_symbol s m)"
  by (simp add: monocle_symbol_def geom_frame_def nosym_def)

lemma monocle_symbol_client: "client (monocle_symbol s m) = client s"
  by (simp add: monocle_symbol_def)

lemma monocle_symbol_globals:
  "sw (monocle_symbol s m) = sw s" "sh (monocle_symbol s m) = sh s" "bh (monocle_symbol s m) = bh s"
  by (simp_all add: monocle_symbol_def)

lemma monocle_symbol_geometry:
  "wx (monitor (monocle_symbol s m) k) = wx (monitor s k)"
  "wy (monitor (monocle_symbol s m) k) = wy (monitor s k)"
  "ww (monitor (monocle_symbol s m) k) = ww (monitor s k)"
  "wh (monitor (monocle_symbol s m) k) = wh (monitor s k)"
  by (simp_all add: monocle_symbol_def)

lemma monocle_geom:
  assumes dist: "distinct (clients (monitor s m))"
      and mem: "c \<in> set (clients (monitor s m))"
      and til: "tiled s c"
  shows "geom (client (monocle s m) c) =
           snd (applysizehints s c (wx (monitor s m)) (wy (monitor s m))
                  (ww (monitor s m) - 2 * bw (client s c))
                  (wh (monitor s m) - 2 * bw (client s c)) False)"
proof -
  let ?s1 = "monocle_symbol s m"
  have f: "geom_frame s ?s1" by (rule monocle_symbol_frame)
  have t1: "tiled ?s1 c" using til geom_frame_tiled[OF f] by simp
  have n: "nosym (monitor ?s1 (mon (client s c))) = nosym (monitor s (mon (client s c)))"
    using f by (simp add: geom_frame_def)
  have a: "\<And>x y w h. applysizehints ?s1 c x y w h False = applysizehints s c x y w h False"
    by (rule applysizehints_nosym_cong) (simp_all add: monocle_symbol_client monocle_symbol_globals n)
  have "geom (client (monocle s m) c) =
          snd (applysizehints ?s1 c (wx (monitor ?s1 m)) (wy (monitor ?s1 m))
                  (ww (monitor ?s1 m) - 2 * bw (client ?s1 c))
                  (wh (monitor ?s1 m) - 2 * bw (client ?s1 c)) False)"
    unfolding monocle_unfold by (rule monocle_loop_geom[OF dist mem t1])
  then show ?thesis by (simp add: a monocle_symbol_geometry monocle_symbol_client)
qed

lemma monocle_ltsymbol:
  assumes "0 < length (filter (ISVISIBLE s) (clients (monitor s m)))"
      and "length (filter (ISVISIBLE s) (clients (monitor s m))) < 2 ^ 31"
  shows "ltsymbol (monitor (monocle s m) m) =
           ''['' @ dec (length (filter (ISVISIBLE s) (clients (monitor s m)))) @ '']''"
proof -
  let ?N = "length (filter (ISVISIBLE s) (clients (monitor s m)))"
  have p: "0 < (word_of_nat ?N :: uint)" by (rule of_nat_pos_small[OF assms])
  have v: "sint (word_of_nat ?N :: uint) = int ?N" by (rule sint_of_nat_small[OF assms(2)])
  have "ltsymbol (monitor (monocle s m) m) = ltsymbol (monitor (monocle_symbol s m) m)"
    by (simp add: monocle_unfold monocle_loop_monitor)
  also have "\<dots> = take 15 (''['' @ dec ?N @ '']'')"
    using p by (simp add: monocle_symbol_def v fmt_d_def)
  also have "\<dots> = ''['' @ dec ?N @ '']''" by (rule monocle_symbol_fits[OF assms(2)])
  finally show ?thesis .
qed

text \<open>
  C3 (as the code has it, in the X11 build). \<^verbatim>\<open>monocle\<close> on a monitor with \<open>N\<close>
  visible clients in its list, \<open>0 < N < 2\<^sup>3\<^sup>1\<close>, leaves the layout symbol \<open>[N]\<close>
  (the count is an \<^verbatim>\<open>unsigned int\<close> printed with \<^verbatim>\<open>%d\<close>, which prints it as it
  is below \<open>2\<^sup>3\<^sup>1\<close>), whether or not any of them is tiled. On a monitor whose client
  list has no client twice, every visible non-floating client \<open>c\<close> of the list ends
  \<^verbatim>\<open>monocle\<close> with the geometry that \<^verbatim>\<open>applysizehints\<close> returns for the request
  \<open>(wx, wy, ww - 2 bw, wh - 2 bw)\<close>. That is exactly the request when \<open>c\<close> belongs to
  the monitor, its hints have no increment, no maximum and no aspect limit, the work
  area has positive extent, and the requested width and height are at least 1, the bar
  height and the hints' minimum.
\<close>

theorem monocle_geometry:
  "(0 < length (filter (ISVISIBLE s) (clients (monitor s m)))
      \<and> length (filter (ISVISIBLE s) (clients (monitor s m))) < 2 ^ 31
    \<longrightarrow> ltsymbol (monitor (monocle s m) m) =
          ''['' @ dec (length (filter (ISVISIBLE s) (clients (monitor s m)))) @ '']'')
   \<and> (distinct (clients (monitor s m)) \<and> c \<in> set (clients (monitor s m))
        \<and> ISVISIBLE s c \<and> \<not> isfloating (client s c)
      \<longrightarrow> geom (client (monocle s m) c) =
            snd (applysizehints s c (wx (monitor s m)) (wy (monitor s m))
                   (ww (monitor s m) - 2 * bw (client s c))
                   (wh (monitor s m) - 2 * bw (client s c)) False)
          \<and> (mon (client s c) = m \<and> plain_hints (client s c)
               \<and> 0 < ww (monitor s m) \<and> 0 < wh (monitor s m)
               \<and> 1 \<le> ww (monitor s m) - 2 * bw (client s c)
               \<and> bh s \<le> ww (monitor s m) - 2 * bw (client s c)
               \<and> minw (client s c) \<le> ww (monitor s m) - 2 * bw (client s c)
               \<and> 1 \<le> wh (monitor s m) - 2 * bw (client s c)
               \<and> bh s \<le> wh (monitor s m) - 2 * bw (client s c)
               \<and> minh (client s c) \<le> wh (monitor s m) - 2 * bw (client s c)
             \<longrightarrow> geom (client (monocle s m) c) =
                   (wx (monitor s m), wy (monitor s m),
                    ww (monitor s m) - 2 * bw (client s c),
                    wh (monitor s m) - 2 * bw (client s c))))"
proof (intro conjI impI)
  assume n: "0 < length (filter (ISVISIBLE s) (clients (monitor s m)))
      \<and> length (filter (ISVISIBLE s) (clients (monitor s m))) < 2 ^ 31"
  show "ltsymbol (monitor (monocle s m) m) =
          ''['' @ dec (length (filter (ISVISIBLE s) (clients (monitor s m)))) @ '']''"
    by (rule monocle_ltsymbol[OF conjunct1[OF n] conjunct2[OF n]])
next
  assume a: "distinct (clients (monitor s m)) \<and> c \<in> set (clients (monitor s m))
        \<and> ISVISIBLE s c \<and> \<not> isfloating (client s c)"
  then have dist: "distinct (clients (monitor s m))" and mem: "c \<in> set (clients (monitor s m))"
    and til: "tiled s c"
    by (simp_all add: tiled_def)
  show "geom (client (monocle s m) c) =
           snd (applysizehints s c (wx (monitor s m)) (wy (monitor s m))
                  (ww (monitor s m) - 2 * bw (client s c))
                  (wh (monitor s m) - 2 * bw (client s c)) False)"
    by (rule monocle_geom[OF dist mem til])
next
  assume a: "distinct (clients (monitor s m)) \<and> c \<in> set (clients (monitor s m))
        \<and> ISVISIBLE s c \<and> \<not> isfloating (client s c)"
    and b: "mon (client s c) = m \<and> plain_hints (client s c)
            \<and> 0 < ww (monitor s m) \<and> 0 < wh (monitor s m)
            \<and> 1 \<le> ww (monitor s m) - 2 * bw (client s c)
            \<and> bh s \<le> ww (monitor s m) - 2 * bw (client s c)
            \<and> minw (client s c) \<le> ww (monitor s m) - 2 * bw (client s c)
            \<and> 1 \<le> wh (monitor s m) - 2 * bw (client s c)
            \<and> bh s \<le> wh (monitor s m) - 2 * bw (client s c)
            \<and> minh (client s c) \<le> wh (monitor s m) - 2 * bw (client s c)"
  from a have dist: "distinct (clients (monitor s m))" and mem: "c \<in> set (clients (monitor s m))"
    and til: "tiled s c"
    by (simp_all add: tiled_def)
  have g: "geom (client (monocle s m) c) =
           snd (applysizehints s c (wx (monitor s m)) (wy (monitor s m))
                  (ww (monitor s m) - 2 * bw (client s c))
                  (wh (monitor s m) - 2 * bw (client s c)) False)"
    by (rule monocle_geom[OF dist mem til])
  from b have mc: "mon (client s c) = m" by simp
  from b applysizehints_exact[of s c "wx (monitor s m)" "ww (monitor s m) - 2 * bw (client s c)"
        "wy (monitor s m)" "wh (monitor s m) - 2 * bw (client s c)"]
  show "geom (client (monocle s m) c) =
              (wx (monitor s m), wy (monitor s m),
               ww (monitor s m) - 2 * bw (client s c), wh (monitor s m) - 2 * bw (client s c))"
    unfolding g by (simp add: mc)
qed

text \<open>
  Three visible tiled clients: each is given the whole work area less its border, and
  the symbol is \<open>[3]\<close>. One visible client that floats: the symbol is \<open>[1]\<close>.
\<close>

theorem monocle_geometry_witness:
  "distinct (clients (monitor st_three 0)) \<and> 1 \<in> set (clients (monitor st_three 0))
   \<and> ISVISIBLE st_three 1 \<and> \<not> isfloating (client st_three 1)
   \<and> length (filter (ISVISIBLE st_three) (clients (monitor st_three 0))) = 3
   \<and> geom (client (monocle st_three 0) 1) = (0, 0, 998, 698)
   \<and> ltsymbol (monitor (monocle st_three 0) 0) = ''[3]''
   \<and> length (filter (ISVISIBLE st_float_at) (clients (monitor st_float_at 0))) = 1
   \<and> isfloating (client st_float_at 0)
   \<and> ltsymbol (monitor (monocle st_float_at 0) 0) = ''[1]''"
proof -
  have d: "distinct (clients (monitor st_three 0))" by code_simp
  have me: "1 \<in> set (clients (monitor st_three 0))" by code_simp
  have v: "ISVISIBLE st_three 1" by code_simp
  have nf: "\<not> isfloating (client st_three 1)" by code_simp
  have ex: "mon (client st_three 1) = 0 \<and> plain_hints (client st_three 1)
            \<and> 0 < ww (monitor st_three 0) \<and> 0 < wh (monitor st_three 0)
            \<and> 1 \<le> ww (monitor st_three 0) - 2 * bw (client st_three 1)
            \<and> bh st_three \<le> ww (monitor st_three 0) - 2 * bw (client st_three 1)
            \<and> minw (client st_three 1) \<le> ww (monitor st_three 0) - 2 * bw (client st_three 1)
            \<and> 1 \<le> wh (monitor st_three 0) - 2 * bw (client st_three 1)
            \<and> bh st_three \<le> wh (monitor st_three 0) - 2 * bw (client st_three 1)
            \<and> minh (client st_three 1) \<le> wh (monitor st_three 0) - 2 * bw (client st_three 1)"
    by code_simp
  have n3: "length (filter (ISVISIBLE st_three) (clients (monitor st_three 0))) = 3" by code_simp
  have n: "0 < length (filter (ISVISIBLE st_three) (clients (monitor st_three 0)))
      \<and> length (filter (ISVISIBLE st_three) (clients (monitor st_three 0))) < 2 ^ 31"
    unfolding n3 by simp
  have n1: "length (filter (ISVISIBLE st_float_at) (clients (monitor st_float_at 0))) = 1"
    by code_simp
  have k: "0 < length (filter (ISVISIBLE st_float_at) (clients (monitor st_float_at 0)))
      \<and> length (filter (ISVISIBLE st_float_at) (clients (monitor st_float_at 0))) < 2 ^ 31"
    unfolding n1 by simp
  have fl: "isfloating (client st_float_at 0)" by code_simp
  note th = monocle_geometry [of st_three 0 1]
  note tf = monocle_geometry [of st_float_at 0 0]
  have g: "geom (client (monocle st_three 0) 1) =
             (wx (monitor st_three 0), wy (monitor st_three 0),
              ww (monitor st_three 0) - 2 * bw (client st_three 1),
              wh (monitor st_three 0) - 2 * bw (client st_three 1))"
    using th [THEN conjunct2] d me v nf ex by blast
  have l: "ltsymbol (monitor (monocle st_three 0) 0) =
             ''['' @ dec (length (filter (ISVISIBLE st_three) (clients (monitor st_three 0)))) @ '']''"
    by (rule th [THEN conjunct1, rule_format, OF n])
  have l1: "ltsymbol (monitor (monocle st_float_at 0) 0) =
             ''['' @ dec (length (filter (ISVISIBLE st_float_at) (clients (monitor st_float_at 0)))) @ '']''"
    by (rule tf [THEN conjunct1, rule_format, OF k])
  have r: "(wx (monitor st_three 0), wy (monitor st_three 0),
              ww (monitor st_three 0) - 2 * bw (client st_three 1),
              wh (monitor st_three 0) - 2 * bw (client st_three 1)) = (0, 0, 998, 698)"
    by code_simp
  have dd: "''['' @ dec 3 @ '']'' = ''[3]''" by code_simp
  have d1: "''['' @ dec 1 @ '']'' = ''[1]''" by code_simp
  have l3: "ltsymbol (monitor (monocle st_three 0) 0) = ''[3]''"
    using l unfolding n3 dd .
  have l4: "ltsymbol (monitor (monocle st_float_at 0) 0) = ''[1]''"
    using l1 unfolding n1 d1 .
  have g3: "geom (client (monocle st_three 0) 1) = (0, 0, 998, 698)"
    using g unfolding r .
  show ?thesis
    by (intro conjI d me v nf n3 g3 l3 n1 fl l4)
qed

text \<open>
  C3 as stated fails: client 1 is visible and not floating, its hints carry a maximum
  size of 100 by 100, and \<^verbatim>\<open>monocle\<close> leaves it at \<open>(0, 0, 100, 100)\<close>, not at
  \<open>(wx, wy, ww - 2 bw, wh - 2 bw) = (0, 0, 998, 698)\<close>.
\<close>

theorem monocle_respects_max_size:
  "ISVISIBLE st_three_max 1 \<and> \<not> isfloating (client st_three_max 1)
   \<and> (wx (monitor st_three_max 0), wy (monitor st_three_max 0),
       ww (monitor st_three_max 0) - 2 * bw (client st_three_max 1),
       wh (monitor st_three_max 0) - 2 * bw (client st_three_max 1)) = (0, 0, 998, 698)
   \<and> geom (client (monocle st_three_max 0) 1) = (0, 0, 100, 100)"
  by code_simp

section \<open>The tile layout\<close>

lemma tile_resize_frame: "geom_frame s (tile_resize s m n mwu i myu tyu c)"
  by (simp add: tile_resize_def resize_frame)

lemma tile_count_Nil: "tile_count s [] n = n"
  by (simp add: tile_count.simps[of s "[]" n] nexttiled_def)

lemma tile_count_Cons:
  "tile_count s (c # cs) n = (if tiled s c then tile_count s cs (n + 1) else tile_count s cs n)"
  by (simp add: tile_count.simps[of s "c # cs" n] tile_count.simps[of s cs n] nexttiled_tiled)

lemma tile_count_filter: "tile_count s cs n = n + word_of_nat (length (filter (tiled s) cs))"
  by (induction cs arbitrary: n) (simp_all add: tile_count_Nil tile_count_Cons)

lemma tile_loop_Nil: "tile_loop s m n mwu i myu tyu [] = s"
  by (simp add: tile_loop.simps[of s m n mwu i myu tyu "[]"] nexttiled_def)

lemma tile_loop_Cons:
  "tile_loop s m n mwu i myu tyu (c # cs) =
     (if tiled s c then
        tile_loop (tile_resize s m n mwu i myu tyu c) m n mwu (i + 1)
          (if i < word_of_int (nmaster (monitor s m))
           then myu + word_of_int (HEIGHT (client (tile_resize s m n mwu i myu tyu c) c)) else myu)
          (if i < word_of_int (nmaster (monitor s m))
           then tyu else tyu + word_of_int (HEIGHT (client (tile_resize s m n mwu i myu tyu c) c)))
          cs
      else tile_loop s m n mwu i myu tyu cs)"
  by (simp add: tile_loop.simps[of s m n mwu i myu tyu "c # cs"]
        tile_loop.simps[of s m n mwu i myu tyu cs] nexttiled_tiled tile_resize_def Let_def)

lemma tile_loop_filter:
  "tile_loop s m n mwu i myu tyu cs = tile_loop s m n mwu i myu tyu (filter (tiled s) cs)"
proof (induction cs arbitrary: s i myu tyu)
  case Nil
  show ?case by simp
next
  case (Cons d cs)
  show ?case
  proof (cases "tiled s d")
    case False
    then show ?thesis using Cons.IH[of s i myu tyu] by (simp add: tile_loop_Cons)
  next
    case True
    let ?s' = "tile_resize s m n mwu i myu tyu d"
    have e: "tiled ?s' = tiled s"
      by (rule ext) (rule geom_frame_tiled[OF tile_resize_frame])
    show ?thesis
      using True
      by (simp add: tile_loop_Cons[of s m n mwu i myu tyu d cs]
            tile_loop_Cons[of s m n mwu i myu tyu d "filter (tiled s) cs"]
            Cons.IH[of ?s'] e)
  qed
qed

lemma tile_unfold:
  "tile s m =
     (if tile_count s (clients (monitor s m)) 0 = 0 then s
      else tile_loop s m (tile_count s (clients (monitor s m)) 0)
             (if tile_count s (clients (monitor s m)) 0 > word_of_int (nmaster (monitor s m))
              then (if nmaster (monitor s m) \<noteq> 0
                    then word_of_int (c_trunc (real_of_int (ww (monitor s m)) * mfact (monitor s m)))
                    else 0)
              else word_of_int (ww (monitor s m)))
             0 0 0 (clients (monitor s m)))"
  by (simp add: tile_def Let_def)

text \<open>
  C2. On a monitor with the work area \<open>(0, 0, 1000, 700)\<close>, no bar (\<^verbatim>\<open>bh = 0\<close>),
  \<^verbatim>\<open>mfact = 0.5\<close> and \<^verbatim>\<open>nmaster = 1\<close>, whose visible non-floating clients are
  exactly \<open>a\<close> then \<open>b\<close> in the order of the client list, both of this monitor, with
  border width 1 and without size hints: \<^verbatim>\<open>tile\<close> leaves \<open>a\<close> at
  \<open>(0, 0, 498, 698)\<close>, with the outer extent \<open>(0, 0, 500, 700)\<close>, and \<open>b\<close> at
  \<open>(500, 0, 498, 698)\<close>.
\<close>

theorem tile_two_clients:
  assumes geo: "wx (monitor s m) = 0" "wy (monitor s m) = 0"
               "ww (monitor s m) = 1000" "wh (monitor s m) = 700"
      and bar: "bh s = 0"
      and par: "mfact (monitor s m) = 1 / 2" "nmaster (monitor s m) = 1"
      and two: "filter (\<lambda>c. \<not> isfloating (client s c) \<and> ISVISIBLE s c) (clients (monitor s m)) = [a, b]"
      and ne: "a \<noteq> b"
      and own: "mon (client s a) = m" "mon (client s b) = m"
      and brd: "bw (client s a) = 1" "bw (client s b) = 1"
      and nh: "no_sizehints (client s a)" "no_sizehints (client s b)"
  shows "geom (client (tile s m) a) = (0, 0, 498, 698)
       \<and> (cx (client (tile s m) a), cy (client (tile s m) a),
           WIDTH (client (tile s m) a), HEIGHT (client (tile s m) a)) = (0, 0, 500, 700)
       \<and> geom (client (tile s m) b) = (500, 0, 498, 698)"
proof -
  have f: "filter (tiled s) (clients (monitor s m)) = [a, b]"
    using two by (simp add: tiled_def[abs_def])
  have n: "tile_count s (clients (monitor s m)) 0 = 2"
    by (simp add: tile_count_filter f)
  have t: "tile s m = tile_loop s m 2 500 0 0 0 [a, b]"
    unfolding tile_unfold n
    by (simp add: geo par c_trunc_def tile_loop_filter[of s m 2 500 0 0 0 "clients (monitor s m)"] f)
  have "set (filter (tiled s) (clients (monitor s m))) = {a, b}" by (simp add: f)
  then have ta: "tiled s a" and tb: "tiled s b" by auto
  \<comment> \<open>the first turn: the master client\<close>
  define s1 where "s1 = resize s a 0 0 498 698 False"
  have r1: "tile_resize s m 2 500 0 0 0 a = s1"
    by (simp add: tile_resize_def geo par brd s1_def)
  have ea: "snd (applysizehints s a 0 0 498 698 False) = (0, 0, 498, 698)"
    by (rule applysizehints_exact[OF no_sizehints_plain[OF nh(1)]])
       (use nh(1) in \<open>simp_all add: own geo bar brd no_sizehints_def\<close>)
  have g1: "geom (client s1 a) = (0, 0, 498, 698)"
    unfolding s1_def resize_geom by (rule ea)
  have fr1: "geom_frame s s1" unfolding s1_def by (rule resize_frame)
  have bw1: "bw (client s1 a) = 1" using geom_frame_client(3)[OF fr1] brd by simp
  have h1: "HEIGHT (client s1 a) = 700"
    using g1 bw1 by (simp add: HEIGHT_def geom_def)
  have mon1: "monitor s1 = monitor s" unfolding s1_def by (rule resize_monitor)
  have gl1: "sw s1 = sw s" "sh s1 = sh s" "bh s1 = bh s"
    unfolding s1_def by (simp_all add: resize_globals)
  have tb1: "tiled s1 b" using tb geom_frame_tiled[OF fr1] by simp
  have cb1: "client s1 b = client s b" unfolding s1_def using ne by (simp add: resize_other)
  \<comment> \<open>the second turn: the stack client\<close>
  define s2 where "s2 = resize s1 b 500 0 498 698 False"
  have r2: "tile_resize s1 m 2 500 1 700 0 b = s2"
    by (simp add: tile_resize_def mon1 geo par cb1 brd s2_def)
  have t2: "tile s m = s2"
    unfolding t
    by (simp add: tile_loop_Cons[of s] ta r1 geo par h1 tile_loop_Cons[of s1] tb1 mon1 r2 tile_loop_Nil)
  have ab: "applysizehints s1 b 500 0 498 698 False = applysizehints s b 500 0 498 698 False"
    by (rule applysizehints_cong) (simp_all add: cb1 mon1 gl1)
  have eb: "snd (applysizehints s b 500 0 498 698 False) = (500, 0, 498, 698)"
    by (rule applysizehints_exact[OF no_sizehints_plain[OF nh(2)]])
       (use nh(2) in \<open>simp_all add: own geo bar brd no_sizehints_def\<close>)
  have g2b: "geom (client s2 b) = (500, 0, 498, 698)"
    unfolding s2_def resize_geom ab by (rule eb)
  have ca2: "client s2 a = client s1 a" unfolding s2_def using ne by (simp add: resize_other)
  have g2a: "geom (client s2 a) = (0, 0, 498, 698)" using g1 by (simp add: ca2)
  have "WIDTH (client s2 a) = 500" "HEIGHT (client s2 a) = 700"
    using g1 bw1 by (simp_all add: ca2 WIDTH_def HEIGHT_def geom_def)
  then show ?thesis
    unfolding t2 using g2a g2b by (simp add: geom_def)
qed

theorem tile_two_clients_witness:
  "filter (\<lambda>c. \<not> isfloating (client st_two c) \<and> ISVISIBLE st_two c) (clients (monitor st_two 0)) = [0, 1]
   \<and> bw (client st_two 0) = 1 \<and> bw (client st_two 1) = 1
   \<and> no_sizehints (client st_two 0) \<and> no_sizehints (client st_two 1)
   \<and> geom (client (tile st_two 0) 0) = (0, 0, 498, 698)
   \<and> (cx (client (tile st_two 0) 0), cy (client (tile st_two 0) 0),
       WIDTH (client (tile st_two 0) 0), HEIGHT (client (tile st_two 0) 0)) = (0, 0, 500, 700)
   \<and> geom (client (tile st_two 0) 1) = (500, 0, 498, 698)"
proof -
  have geo: "wx (monitor st_two 0) = 0" "wy (monitor st_two 0) = 0"
    "ww (monitor st_two 0) = 1000" "wh (monitor st_two 0) = 700" by code_simp+
  have bar: "bh st_two = 0" by code_simp
  have par: "mfact (monitor st_two 0) = 1 / 2" "nmaster (monitor st_two 0) = 1" by code_simp+
  have two: "filter (\<lambda>c. \<not> isfloating (client st_two c) \<and> ISVISIBLE st_two c)
               (clients (monitor st_two 0)) = [0, 1]" by code_simp
  have ne: "(0 :: nat) \<noteq> 1" by simp
  have own: "mon (client st_two 0) = 0" "mon (client st_two 1) = 0" by code_simp+
  have brd: "bw (client st_two 0) = 1" "bw (client st_two 1) = 1" by code_simp+
  have nh: "no_sizehints (client st_two 0)" "no_sizehints (client st_two 1)" by code_simp+
  note tile_two_clients [OF geo bar par two ne own brd nh]
  with two brd nh show ?thesis by simp
qed

section \<open>Clients that arrange leaves alone\<close>

lemma resize_own_fixed:
  assumes "snd (applysizehints s c (cx (client s c)) (cy (client s c)) (cw (client s c)) (ch (client s c)) i)
             = geom (client s c)"
  shows "resize s c (cx (client s c)) (cy (client s c)) (cw (client s c)) (ch (client s c)) i = s"
proof -
  have "\<not> fst (applysizehints s c (cx (client s c)) (cy (client s c)) (cw (client s c)) (ch (client s c)) i)"
    using assms by (simp add: applysizehints_dirty)
  then show ?thesis
    by (cases "applysizehints s c (cx (client s c)) (cy (client s c)) (cw (client s c)) (ch (client s c)) i")
       (simp add: resize_def)
qed

lemma settled_resize_other:
  assumes "d \<noteq> c" "settled s c"
  shows "settled (resize s d x y w h i) c"
proof -
  let ?s' = "resize s d x y w h i"
  have c: "client ?s' c = client s c" using assms(1) by (simp add: resize_other)
  have m: "monitor ?s' = monitor s" by (rule resize_monitor)
  have v: "ISVISIBLE ?s' c = ISVISIBLE s c" by (rule geom_frame_ISVISIBLE[OF resize_frame])
  have a: "\<And>x y w h. applysizehints ?s' c x y w h False = applysizehints s c x y w h False"
    by (rule applysizehints_cong) (simp_all add: c m resize_globals)
  show ?thesis using assms(2) by (simp add: settled_def c m v a)
qed

lemma showhide_settled: "settled s c \<Longrightarrow> client (showhide s cs) c = client s c"
proof (induction cs arbitrary: s)
  case Nil
  show ?case by simp
next
  case (Cons d cs)
  show ?case
  proof (cases "ISVISIBLE s d \<and> (lt_arrange (lt (monitor s (mon (client s d)))
                 (sellt (monitor s (mon (client s d))))) = None \<or> isfloating (client s d))
             \<and> \<not> isfullscreen (client s d)")
    case False
    then have e: "showhide s (d # cs) = showhide s cs" by auto
    show ?thesis unfolding e by (rule Cons.IH[OF Cons.prems])
  next
    case True
    let ?s' = "resize s d (cx (client s d)) (cy (client s d)) (cw (client s d)) (ch (client s d)) False"
    have sh: "showhide s (d # cs) = showhide ?s' cs" using True by simp
    show ?thesis
    proof (cases "d = c")
      case False
      have "settled ?s' c" using False Cons.prems by (rule settled_resize_other)
      from Cons.IH[OF this] have "client (showhide ?s' cs) c = client ?s' c" .
      also have "\<dots> = client s c" using False by (simp add: resize_other)
      finally show ?thesis unfolding sh .
    next
      case dc: True
      have "snd (applysizehints s c (cx (client s c)) (cy (client s c)) (cw (client s c)) (ch (client s c)) False)
             = geom (client s c)"
        using True Cons.prems by (simp add: settled_def dc)
      then have e: "?s' = s" unfolding dc by (rule resize_own_fixed)
      show ?thesis unfolding sh e by (rule Cons.IH[OF Cons.prems])
    qed
  qed
qed

lemma showhide_settled_keeps: "settled s c \<Longrightarrow> settled (showhide s cs) c"
proof -
  assume a: "settled s c"
  let ?t = "showhide s cs"
  have f: "geom_frame s ?t" by (rule showhide_frame)
  have c: "client ?t c = client s c" by (rule showhide_settled[OF a])
  have v: "ISVISIBLE ?t c = ISVISIBLE s c" by (rule geom_frame_ISVISIBLE[OF f])
  have n: "nosym (monitor ?t (mon (client s c))) = nosym (monitor s (mon (client s c)))"
    using f by (simp add: geom_frame_def)
  have g: "sw ?t = sw s" "sh ?t = sh s" "bh ?t = bh s" using f by (simp_all add: geom_frame_def)
  have ap: "\<And>x y w h. applysizehints ?t c x y w h False = applysizehints s c x y w h False"
    by (rule applysizehints_nosym_cong) (simp_all add: c n g)
  show "settled ?t c"
    using a by (simp add: settled_def c v ap nosym_eq_geometry(5,6)[OF n])
qed

lemma tile_loop_other:
  "\<not> tiled s c \<Longrightarrow> client (tile_loop s m n mwu i myu tyu cs) c = client s c"
proof (induction cs arbitrary: s i myu tyu)
  case Nil
  show ?case by (simp add: tile_loop_Nil)
next
  case (Cons d cs)
  show ?case
  proof (cases "tiled s d")
    case False
    then show ?thesis using Cons.IH[OF Cons.prems] by (simp add: tile_loop_Cons)
  next
    case True
    let ?s' = "tile_resize s m n mwu i myu tyu d"
    have ne: "c \<noteq> d" using True Cons.prems by auto
    have nt: "\<not> tiled ?s' c" using Cons.prems geom_frame_tiled[OF tile_resize_frame] by simp
    have "client ?s' c = client s c" using ne by (simp add: tile_resize_def resize_other)
    then show ?thesis using True Cons.IH[OF nt] by (simp add: tile_loop_Cons)
  qed
qed

lemma tile_other: "\<not> tiled s c \<Longrightarrow> client (tile s m) c = client s c"
  by (simp add: tile_unfold tile_loop_other)

lemma monocle_other: "\<not> tiled s c \<Longrightarrow> client (monocle s m) c = client s c"
proof -
  assume a: "\<not> tiled s c"
  have "\<not> tiled (monocle_symbol s m) c"
    using a geom_frame_tiled[OF monocle_symbol_frame] by simp
  then show ?thesis by (simp add: monocle_unfold monocle_loop_other monocle_symbol_client)
qed

lemma arrangemon_other:
  assumes "\<not> tiled s c \<or> lt_arrange (lt (monitor s m) (sellt (monitor s m))) = None"
  shows "client (arrangemon s m) c = client s c"
proof (cases "lt_arrange (lt (monitor s m) (sellt (monitor s m)))")
  case None
  then show ?thesis by (simp add: arrangemon_def Let_def)
next
  case (Some f)
  let ?s1 = "s\<lparr>monitor := (monitor s)(m := (monitor s m)\<lparr>ltsymbol := take 16 (lt_symbol (lt (monitor s m) (sellt (monitor s m))))\<rparr>)\<rparr>"
  have fr: "geom_frame s ?s1" by (simp add: geom_frame_def nosym_def)
  have nt: "\<not> tiled ?s1 c" using assms Some geom_frame_tiled[OF fr] by simp
  show ?thesis
  proof (cases f)
    case Tile
    have "arrangemon s m = tile ?s1 m" using Some Tile by (simp add: arrangemon_def Let_def)
    then show ?thesis using tile_other[OF nt] by simp
  next
    case Monocle
    have "arrangemon s m = monocle ?s1 m" using Some Monocle by (simp add: arrangemon_def Let_def)
    then show ?thesis using monocle_other[OF nt] by simp
  qed
qed

lemma settled_not_tiled:
  "settled s c \<Longrightarrow> \<not> tiled s c \<or> lt_arrange (lt (monitor s (mon (client s c))) (sellt (monitor s (mon (client s c))))) = None"
  by (auto simp: settled_def tiled_def split: if_splits)

lemma arrange_settled:
  assumes "settled s c"
  shows "client (arrange s (Some (mon (client s c)))) c = client s c"
proof -
  let ?m = "mon (client s c)"
  let ?t = "showhide s (stack (monitor s ?m))"
  have st: "settled ?t c" by (rule showhide_settled_keeps[OF assms])
  have c: "client ?t c = client s c" by (rule showhide_settled[OF assms])
  have "client (arrangemon ?t ?m) c = client ?t c"
    using settled_not_tiled[OF st] by (intro arrangemon_other) (simp add: c)
  then show ?thesis by (simp add: arrange_def restack_def c)
qed

section \<open>Fullscreen and back\<close>

lemma fullscreen_enter:
  "client (setfullscreen s c True) c =
     (client s c)\<lparr>isfullscreen := True, oldstate := isfloating (client s c), oldbw := bw (client s c),
        bw := 0, isfloating := True,
        oldx := cx (client s c), cx := mx (monitor s (mon (client s c))),
        oldy := cy (client s c), cy := my (monitor s (mon (client s c))),
        oldw := cw (client s c), cw := mw (monitor s (mon (client s c))),
        oldh := ch (client s c), ch := mh (monitor s (mon (client s c)))\<rparr>"
  by (simp add: setfullscreen_def resizeclient_def Let_def)

lemma fullscreen_round_trip_unfold:
  "setfullscreen (setfullscreen s c True) c False
     = arrange (unfullscreen_store s c) (Some (mon (client s c)))"
  by (simp add: setfullscreen_def resizeclient_def unfullscreen_store_def Let_def)

lemma sizehints_wh_cong:
  assumes "basew C' = basew C" "baseh C' = baseh C" "minw C' = minw C" "minh C' = minh C"
    "maxw C' = maxw C" "maxh C' = maxh C" "incw C' = incw C" "inch C' = inch C"
    "mina C' = mina C" "maxa C' = maxa C"
  shows "sizehints_wh C' w h = sizehints_wh C w h"
  by (simp only: sizehints_wh_def assms)

lemma noold_eq_fields:
  assumes "noold C' = noold C"
  shows "cx C' = cx C" "cy C' = cy C" "cw C' = cw C" "ch C' = ch C"
    "bw C' = bw C" "mon C' = mon C" "tags C' = tags C"
    "isfloating C' = isfloating C" "isfullscreen C' = isfullscreen C"
    "basew C' = basew C" "baseh C' = baseh C" "minw C' = minw C" "minh C' = minh C"
    "maxw C' = maxw C" "maxh C' = maxh C" "incw C' = incw C" "inch C' = inch C"
    "mina C' = mina C" "maxa C' = maxa C"
  using arg_cong[OF assms, where f = cx] arg_cong[OF assms, where f = cy]
    arg_cong[OF assms, where f = cw] arg_cong[OF assms, where f = ch]
    arg_cong[OF assms, where f = bw] arg_cong[OF assms, where f = mon]
    arg_cong[OF assms, where f = tags] arg_cong[OF assms, where f = isfloating]
    arg_cong[OF assms, where f = isfullscreen]
    arg_cong[OF assms, where f = basew] arg_cong[OF assms, where f = baseh]
    arg_cong[OF assms, where f = minw] arg_cong[OF assms, where f = minh]
    arg_cong[OF assms, where f = maxw] arg_cong[OF assms, where f = maxh]
    arg_cong[OF assms, where f = incw] arg_cong[OF assms, where f = inch]
    arg_cong[OF assms, where f = mina] arg_cong[OF assms, where f = maxa]
  by (simp_all add: noold_def)

lemma old_eq_refl: "old_eq s s"
  by (simp add: old_eq_def)

lemma old_eq_client:
  assumes "old_eq s t"
  shows "noold (client t c) = noold (client s c)"
  using assms by (simp add: old_eq_def)

lemma old_eq_globals:
  assumes "old_eq s t"
  shows "monitor t = monitor s" "mons t = mons s" "selmon t = selmon s"
    "sw t = sw s" "sh t = sh s" "bh t = bh s"
  using assms by (simp_all add: old_eq_def)

lemma old_eq_applysizehints:
  assumes "old_eq s t"
  shows "applysizehints t c x y w h i = applysizehints s c x y w h i"
proof -
  note f = noold_eq_fields[OF old_eq_client[OF assms, of c]]
  have wh: "WIDTH (client t c) = WIDTH (client s c)" "HEIGHT (client t c) = HEIGHT (client s c)"
    by (simp_all add: WIDTH_def HEIGHT_def f)
  have sz: "sizehints_wh (client t c) = sizehints_wh (client s c)"
    by (rule ext, rule ext, rule sizehints_wh_cong) (simp_all add: f)
  show ?thesis
    by (simp only: applysizehints_def Let_def wh sz f old_eq_globals[OF assms])
qed

lemma noold_resizeclient:
  "noold (C\<lparr>oldx := a, cx := x, oldy := b, cy := y, oldw := c, cw := w, oldh := d, ch := h\<rparr>)
     = (noold C)\<lparr>cx := x, cy := y, cw := w, ch := h\<rparr>"
  by (simp add: noold_def)

lemma old_eq_resizeclient:
  assumes "old_eq s t"
  shows "old_eq (resizeclient s c x y w h) (resizeclient t c x y w h)"
  using assms by (simp add: old_eq_def resizeclient_def noold_resizeclient)

lemma old_eq_resize:
  assumes "old_eq s t"
  shows "old_eq (resize s c x y w h i) (resize t c x y w h i)"
proof (cases "applysizehints s c x y w h i")
  case (fields dirty x' y' w' h')
  show ?thesis
    using assms old_eq_resizeclient[OF assms]
    by (simp add: resize_def old_eq_applysizehints[OF assms] fields)
qed

lemma old_eq_ISVISIBLE:
  assumes "old_eq s t"
  shows "ISVISIBLE t c = ISVISIBLE s c"
  by (simp add: ISVISIBLE_def noold_eq_fields[OF old_eq_client[OF assms]] old_eq_globals[OF assms])

lemma old_eq_tiled:
  assumes "old_eq s t"
  shows "tiled t c = tiled s c"
  by (simp add: tiled_def old_eq_ISVISIBLE[OF assms] noold_eq_fields[OF old_eq_client[OF assms]])

lemma old_eq_monocle_loop:
  "old_eq s t \<Longrightarrow> old_eq (monocle_loop s m cs) (monocle_loop t m cs)"
proof (induction cs arbitrary: s t)
  case Nil
  then show ?case by (simp add: monocle_loop_Nil)
next
  case (Cons c cs)
  note o = Cons.prems
  note f = noold_eq_fields[OF old_eq_client[OF o, of c]]
  show ?case
  proof (cases "tiled s c")
    case False
    then show ?thesis
      using Cons.IH[OF o] by (simp add: monocle_loop_Cons old_eq_tiled[OF o])
  next
    case True
    have r: "old_eq (resize s c (wx (monitor s m)) (wy (monitor s m))
              (ww (monitor s m) - 2 * bw (client s c))
              (wh (monitor s m) - 2 * bw (client s c)) False)
            (resize t c (wx (monitor s m)) (wy (monitor s m))
              (ww (monitor s m) - 2 * bw (client s c))
              (wh (monitor s m) - 2 * bw (client s c)) False)"
      by (rule old_eq_resize[OF o])
    show ?thesis
      using True Cons.IH[OF r]
      by (simp add: monocle_loop_Cons old_eq_tiled[OF o] f old_eq_globals[OF o])
  qed
qed

lemma old_eq_monocle:
  assumes "old_eq s t"
  shows "old_eq (monocle s m) (monocle t m)"
proof -
  have v: "ISVISIBLE t = ISVISIBLE s" by (rule ext) (rule old_eq_ISVISIBLE[OF assms])
  have a: "old_eq (monocle_symbol s m) (monocle_symbol t m)"
    using assms by (simp add: monocle_symbol_def v old_eq_def)
  show ?thesis
    unfolding monocle_unfold old_eq_globals[OF assms] by (rule old_eq_monocle_loop[OF a])
qed

lemma old_eq_tile_count:
  assumes "old_eq s t"
  shows "tile_count t cs n = tile_count s cs n"
proof -
  have "tiled t = tiled s" by (rule ext) (rule old_eq_tiled[OF assms])
  then show ?thesis by (simp add: tile_count_filter)
qed

lemma old_eq_tile_resize:
  assumes "old_eq s t"
  shows "old_eq (tile_resize s m n mwu i myu tyu c) (tile_resize t m n mwu i myu tyu c)"
proof -
  note f = noold_eq_fields[OF old_eq_client[OF assms, of c]]
  show ?thesis
    unfolding tile_resize_def old_eq_globals[OF assms] f
    using old_eq_resize[OF assms] by simp
qed

lemma old_eq_tile_loop:
  "old_eq s t \<Longrightarrow> old_eq (tile_loop s m n mwu i myu tyu cs) (tile_loop t m n mwu i myu tyu cs)"
proof (induction cs arbitrary: s t i myu tyu)
  case Nil
  then show ?case by (simp add: tile_loop_Nil)
next
  case (Cons c cs)
  note o = Cons.prems
  show ?case
  proof (cases "tiled s c")
    case False
    then show ?thesis
      using Cons.IH[OF o] by (simp add: tile_loop_Cons old_eq_tiled[OF o])
  next
    case True
    have r: "old_eq (tile_resize s m n mwu i myu tyu c) (tile_resize t m n mwu i myu tyu c)"
      by (rule old_eq_tile_resize[OF o])
    have hh: "HEIGHT (client (tile_resize t m n mwu i myu tyu c) c)
              = HEIGHT (client (tile_resize s m n mwu i myu tyu c) c)"
      by (simp add: HEIGHT_def noold_eq_fields[OF old_eq_client[OF r, of c]])
    have tt: "tiled t c" using True by (simp add: old_eq_tiled[OF o])
    show ?thesis
      unfolding tile_loop_Cons[of s] tile_loop_Cons[of t] hh old_eq_globals[OF o]
      using True tt Cons.IH[OF r] by simp
  qed
qed

lemma old_eq_tile:
  assumes "old_eq s t"
  shows "old_eq (tile s m) (tile t m)"
  unfolding tile_unfold old_eq_tile_count[OF assms] old_eq_globals[OF assms]
  using assms old_eq_tile_loop[OF assms] by simp

lemma old_eq_showhide:
  "old_eq s t \<Longrightarrow> old_eq (showhide s cs) (showhide t cs)"
proof (induction cs arbitrary: s t)
  case Nil
  then show ?case by simp
next
  case (Cons c cs)
  note o = Cons.prems
  note f = noold_eq_fields[OF old_eq_client[OF o, of c]]
  have r: "old_eq (resize s c (cx (client s c)) (cy (client s c))
                 (cw (client s c)) (ch (client s c)) False)
            (resize t c (cx (client s c)) (cy (client s c))
                 (cw (client s c)) (ch (client s c)) False)"
    by (rule old_eq_resize[OF o])
  show ?case
    unfolding showhide.simps old_eq_ISVISIBLE[OF o] f old_eq_globals[OF o]
    using Cons.IH[OF o] Cons.IH[OF r] by simp
qed

lemma old_eq_arrangemon:
  assumes "old_eq s t"
  shows "old_eq (arrangemon s m) (arrangemon t m)"
proof -
  let ?s1 = "s\<lparr>monitor := (monitor s)(m := (monitor s m)\<lparr>ltsymbol := take 16 (lt_symbol (lt (monitor s m) (sellt (monitor s m))))\<rparr>)\<rparr>"
  let ?t1 = "t\<lparr>monitor := (monitor s)(m := (monitor s m)\<lparr>ltsymbol := take 16 (lt_symbol (lt (monitor s m) (sellt (monitor s m))))\<rparr>)\<rparr>"
  have a: "old_eq ?s1 ?t1" using assms by (simp add: old_eq_def)
  show ?thesis
    unfolding arrangemon_def Let_def old_eq_globals[OF assms]
    using a old_eq_tile[OF a] old_eq_monocle[OF a]
    by (simp split: option.splits Arranger.splits)
qed

lemma old_eq_arrange:
  assumes "old_eq s t"
  shows "old_eq (arrange s (Some m)) (arrange t (Some m))"
  using old_eq_arrangemon[OF old_eq_showhide[OF assms]]
  by (simp add: arrange_def restack_def old_eq_globals[OF assms])

lemma old_eq_unfullscreen_store:
  assumes "\<not> isfullscreen (client s c)"
  shows "old_eq s (unfullscreen_store s c)"
  using assms by (simp add: old_eq_def unfullscreen_store_def noold_def)

lemma fullscreen_round_trip_arrange:
  assumes "\<not> isfullscreen (client s c)"
  shows "old_eq (arrange s (Some (mon (client s c))))
           (setfullscreen (setfullscreen s c True) c False)"
  unfolding fullscreen_round_trip_unfold
  by (rule old_eq_arrange[OF old_eq_unfullscreen_store[OF assms]])

text \<open>
  C5 (as the code has it, in the X11 build). For a client that is not fullscreen,
  entering fullscreen sets \<^verbatim>\<open>isfullscreen\<close> and \<^verbatim>\<open>isfloating\<close>, the border width 0
  and the geometry of the monitor's full screen rectangle. Leaving fullscreen
  afterwards restores the border width and the \<^verbatim>\<open>isfloating\<close> flag; it also stores
  the prior \<open>(x, y, w, h)\<close>, but ends with \<^verbatim>\<open>arrange(c->mon)\<close>, so the final
  geometry is the one \<^verbatim>\<open>arrange(c->mon)\<close> gives the client from the prior state. It
  is the prior geometry exactly when that arrange leaves the geometry of the client as
  it is; in particular when the client is not visible, or is managed as floating (it
  floats, or the monitor has the floating layout) and its prior geometry is what
  \<^verbatim>\<open>applysizehints\<close> returns for it.
\<close>

theorem fullscreen_round_trip:
  assumes "\<not> isfullscreen (client s c)"
  shows "isfullscreen (client (setfullscreen s c True) c)
       \<and> isfloating (client (setfullscreen s c True) c)
       \<and> bw (client (setfullscreen s c True) c) = 0
       \<and> geom (client (setfullscreen s c True) c)
           = (mx (monitor s (mon (client s c))), my (monitor s (mon (client s c))),
              mw (monitor s (mon (client s c))), mh (monitor s (mon (client s c))))
       \<and> \<not> isfullscreen (client (setfullscreen (setfullscreen s c True) c False) c)
       \<and> isfloating (client (setfullscreen (setfullscreen s c True) c False) c) = isfloating (client s c)
       \<and> bw (client (setfullscreen (setfullscreen s c True) c False) c) = bw (client s c)
       \<and> geom (client (setfullscreen (setfullscreen s c True) c False) c)
           = geom (client (arrange s (Some (mon (client s c)))) c)
       \<and> ((geom (client (setfullscreen (setfullscreen s c True) c False) c) = geom (client s c))
            = (geom (client (arrange s (Some (mon (client s c)))) c) = geom (client s c)))
       \<and> (\<not> ISVISIBLE s c \<or>
           ((lt_arrange (lt (monitor s (mon (client s c))) (sellt (monitor s (mon (client s c))))) = None
              \<or> isfloating (client s c))
            \<and> snd (applysizehints s c (cx (client s c)) (cy (client s c))
                     (cw (client s c)) (ch (client s c)) False) = geom (client s c))
          \<longrightarrow> geom (client (setfullscreen (setfullscreen s c True) c False) c) = geom (client s c))"
proof -
  let ?r = "unfullscreen_store s c"
  let ?t = "setfullscreen (setfullscreen s c True) c False"
  let ?a = "arrange s (Some (mon (client s c)))"
  have mr: "mon (client ?r c) = mon (client s c)" by (simp add: unfullscreen_store_def)
  have t: "?t = arrange ?r (Some (mon (client ?r c)))"
    by (simp add: fullscreen_round_trip_unfold mr)
  have fr: "geom_frame ?r ?t" unfolding t by (rule arrange_frame)
  have enter: "isfullscreen (client (setfullscreen s c True) c)
       \<and> isfloating (client (setfullscreen s c True) c)
       \<and> bw (client (setfullscreen s c True) c) = 0
       \<and> geom (client (setfullscreen s c True) c)
           = (mx (monitor s (mon (client s c))), my (monitor s (mon (client s c))),
              mw (monitor s (mon (client s c))), mh (monitor s (mon (client s c))))"
    by (simp add: fullscreen_enter geom_def)
  have e1: "\<not> isfullscreen (client ?t c)"
    using geom_frame_client(5)[OF fr, of c] by (simp add: unfullscreen_store_def)
  have e2: "isfloating (client ?t c) = isfloating (client s c)"
    using geom_frame_client(4)[OF fr, of c] by (simp add: unfullscreen_store_def)
  have e3: "bw (client ?t c) = bw (client s c)"
    using geom_frame_client(3)[OF fr, of c] by (simp add: unfullscreen_store_def)
  have o: "old_eq ?a ?t" by (rule fullscreen_round_trip_arrange[OF assms])
  have e4: "geom (client ?t c) = geom (client ?a c)"
    by (simp add: geom_def noold_eq_fields[OF old_eq_client[OF o, of c]])
  have e5: "(geom (client ?t c) = geom (client s c)) = (geom (client ?a c) = geom (client s c))"
    unfolding e4 by (rule refl)
  have e6: "geom (client ?t c) = geom (client s c)"
    if a: "\<not> ISVISIBLE s c \<or>
           ((lt_arrange (lt (monitor s (mon (client s c))) (sellt (monitor s (mon (client s c))))) = None
              \<or> isfloating (client s c))
            \<and> snd (applysizehints s c (cx (client s c)) (cy (client s c))
                     (cw (client s c)) (ch (client s c)) False) = geom (client s c))"
  proof -
    have "settled s c" using a unfolding settled_def by auto
    then have "client ?a c = client s c" by (rule arrange_settled)
    then show ?thesis unfolding e4 by simp
  qed
  show ?thesis
    by (intro conjI impI; (rule enter[THEN conjunct1] enter[THEN conjunct2, THEN conjunct1]
          enter[THEN conjunct2, THEN conjunct2, THEN conjunct1]
          enter[THEN conjunct2, THEN conjunct2, THEN conjunct2] e1 e2 e3 e4 e5 | erule e6))
qed

text \<open>
  A tiled client on its tile \<open>(0, 0, 998, 698)\<close> is fullscreen at \<open>(0, 0, 1000, 700)\<close>
  without border and is back on its tile afterwards; a floating client at
  \<open>(100, 100, 400, 300)\<close> is back there afterwards.
\<close>

theorem fullscreen_round_trip_witness:
  "\<not> isfullscreen (client st_tiled_on 0) \<and> ISVISIBLE st_tiled_on 0
   \<and> \<not> isfloating (client st_tiled_on 0)
   \<and> geom (client st_tiled_on 0) = (0, 0, 998, 698) \<and> bw (client st_tiled_on 0) = 1
   \<and> geom (client (setfullscreen st_tiled_on 0 True) 0) = (0, 0, 1000, 700)
   \<and> bw (client (setfullscreen st_tiled_on 0 True) 0) = 0
   \<and> isfloating (client (setfullscreen st_tiled_on 0 True) 0)
   \<and> geom (client (arrange st_tiled_on (Some (mon (client st_tiled_on 0)))) 0) = (0, 0, 998, 698)
   \<and> geom (client (setfullscreen (setfullscreen st_tiled_on 0 True) 0 False) 0) = (0, 0, 998, 698)
   \<and> bw (client (setfullscreen (setfullscreen st_tiled_on 0 True) 0 False) 0) = 1
   \<and> \<not> isfloating (client (setfullscreen (setfullscreen st_tiled_on 0 True) 0 False) 0)
   \<and> \<not> isfullscreen (client st_float_at 0) \<and> ISVISIBLE st_float_at 0 \<and> isfloating (client st_float_at 0)
   \<and> geom (client st_float_at 0) = (100, 100, 400, 300) \<and> bw (client st_float_at 0) = 1
   \<and> snd (applysizehints st_float_at 0 100 100 400 300 False) = (100, 100, 400, 300)
   \<and> geom (client (setfullscreen st_float_at 0 True) 0) = (0, 0, 1000, 700)
   \<and> bw (client (setfullscreen st_float_at 0 True) 0) = 0
   \<and> geom (client (setfullscreen (setfullscreen st_float_at 0 True) 0 False) 0) = (100, 100, 400, 300)
   \<and> bw (client (setfullscreen (setfullscreen st_float_at 0 True) 0 False) 0) = 1
   \<and> isfloating (client (setfullscreen (setfullscreen st_float_at 0 True) 0 False) 0)"
proof -
  have h: "\<not> isfullscreen (client st_float_at 0)" by code_simp
  have v: "ISVISIBLE st_float_at 0" by code_simp
  have fl: "isfloating (client st_float_at 0)" by code_simp
  have g: "geom (client st_float_at 0) = (100, 100, 400, 300)" by code_simp
  have c: "cx (client st_float_at 0) = 100" "cy (client st_float_at 0) = 100"
    "cw (client st_float_at 0) = 400" "ch (client st_float_at 0) = 300" by code_simp+
  have b: "bw (client st_float_at 0) = 1" by code_simp
  have a: "snd (applysizehints st_float_at 0 100 100 400 300 False) = (100, 100, 400, 300)"
    by code_simp
  have m: "(mx (monitor st_float_at (mon (client st_float_at 0))),
            my (monitor st_float_at (mon (client st_float_at 0))),
            mw (monitor st_float_at (mon (client st_float_at 0))),
            mh (monitor st_float_at (mon (client st_float_at 0)))) = (0, 0, 1000, 700)"
    by code_simp
  have p: "\<not> ISVISIBLE st_float_at 0 \<or>
           ((lt_arrange (lt (monitor st_float_at (mon (client st_float_at 0)))
                (sellt (monitor st_float_at (mon (client st_float_at 0))))) = None
              \<or> isfloating (client st_float_at 0))
            \<and> snd (applysizehints st_float_at 0 (cx (client st_float_at 0)) (cy (client st_float_at 0))
                     (cw (client st_float_at 0)) (ch (client st_float_at 0)) False)
                = geom (client st_float_at 0))"
    unfolding c g a using fl by simp
  note th = fullscreen_round_trip [OF h]
  have x1: "geom (client (setfullscreen st_float_at 0 True) 0) = (0, 0, 1000, 700)"
    using th unfolding m by blast
  have x2: "bw (client (setfullscreen st_float_at 0 True) 0) = 0"
    using th by blast
  have x3: "geom (client (setfullscreen (setfullscreen st_float_at 0 True) 0 False) 0)
              = (100, 100, 400, 300)"
    using th p unfolding g by blast
  have x4: "bw (client (setfullscreen (setfullscreen st_float_at 0 True) 0 False) 0) = 1"
    using th unfolding b by blast
  have x5: "isfloating (client (setfullscreen (setfullscreen st_float_at 0 True) 0 False) 0)"
    using th fl by blast
  have h': "\<not> isfullscreen (client st_tiled_on 0)" by code_simp
  have v': "ISVISIBLE st_tiled_on 0" by code_simp
  have nf': "\<not> isfloating (client st_tiled_on 0)" by code_simp
  have g': "geom (client st_tiled_on 0) = (0, 0, 998, 698)" by code_simp
  have b': "bw (client st_tiled_on 0) = 1" by code_simp
  have m': "(mx (monitor st_tiled_on (mon (client st_tiled_on 0))),
            my (monitor st_tiled_on (mon (client st_tiled_on 0))),
            mw (monitor st_tiled_on (mon (client st_tiled_on 0))),
            mh (monitor st_tiled_on (mon (client st_tiled_on 0)))) = (0, 0, 1000, 700)"
    by code_simp
  have a': "geom (client (arrange st_tiled_on (Some (mon (client st_tiled_on 0)))) 0) = (0, 0, 998, 698)"
    by code_simp
  note tt = fullscreen_round_trip [OF h']
  have y1: "geom (client (setfullscreen st_tiled_on 0 True) 0) = (0, 0, 1000, 700)"
    using tt unfolding m' by blast
  have y2: "bw (client (setfullscreen st_tiled_on 0 True) 0) = 0"
    using tt by blast
  have y3: "isfloating (client (setfullscreen st_tiled_on 0 True) 0)"
    using tt by blast
  have y4: "geom (client (setfullscreen (setfullscreen st_tiled_on 0 True) 0 False) 0)
              = (0, 0, 998, 698)"
    using tt unfolding a' by blast
  have y5: "bw (client (setfullscreen (setfullscreen st_tiled_on 0 True) 0 False) 0) = 1"
    using tt unfolding b' by blast
  have y6: "\<not> isfloating (client (setfullscreen (setfullscreen st_tiled_on 0 True) 0 False) 0)"
    using tt nf' by blast
  show ?thesis
    by (intro conjI h' v' nf' g' b' y1 y2 y3 a' y4 y5 y6 h v fl g b a x1 x2 x3 x4 x5)
qed

text \<open>
  C5 as stated fails: a tiled client at \<open>(100, 100, 400, 300)\<close>, alone on the tiling
  monitor \<open>(0, 0, 1000, 700)\<close>, enters and leaves fullscreen; the closing
  \<^verbatim>\<open>arrange\<close> tiles it again, at \<open>(0, 0, 998, 698)\<close>.
\<close>

theorem fullscreen_exit_retiles:
  "\<not> isfullscreen (client st_tiled_at 0) \<and> \<not> isfloating (client st_tiled_at 0)
   \<and> geom (client st_tiled_at 0) = (100, 100, 400, 300)
   \<and> geom (client (setfullscreen (setfullscreen st_tiled_at 0 True) 0 False) 0) = (0, 0, 998, 698)"
  by code_simp

end
